theory Spec2Isabelle
  imports Main "HOL-Library.Word" "HOL-Library.Signed_Division"
begin

section \<open>Shared data: errors, cancellation contexts, DNS messages\<close>

text \<open>
  Go's \<open>error\<close> values. \<open>Canceled\<close> and \<open>DeadlineExceeded\<close> are the two values
  \<open>context.Context.Err()\<close> can return; \<open>Errorf\<close> is the result of \<open>fmt.Errorf\<close>
  (the formatted text); \<open>OtherError\<close> stands for any error a collaborator produces;
  \<open>PluginError\<close> is an error wrapped with a plugin's tag.
\<close>

datatype error =
    Canceled
  | DeadlineExceeded
  | Errorf string
  | OtherError string
  | PluginError string error

text \<open>
  Modelled from the spec: \<open>handler.NewPluginError\<close> is not under src/. The spec says an
  error of the underlying plugin "is wrapped with the plugin's tag": the result holds the
  tag and the error, and differs from the error it wraps.
\<close>

fun NewPluginError :: "string \<Rightarrow> error \<Rightarrow> error" where
  "NewPluginError tag err = PluginError tag err"

text \<open>\<open>context.Context\<close>: only \<open>Err()\<close> is read by the code; \<open>None\<close> is Go's nil.\<close>

record goContext =
  ctx_Err :: "error option"

text \<open>
  \<open>time.Duration\<close> is an int64 count of nanoseconds. Multiplication wraps around;
  division truncates towards zero.
\<close>

type_synonym Duration = "64 word"

definition time_Second :: Duration where
  "time_Second = 1000000000"

definition Duration_div :: "Duration \<Rightarrow> Duration \<Rightarrow> Duration" where
  "Duration_div a b = word_of_int (sint a sdiv sint b)"

text \<open>The fields of \<open>dns.RR_Header\<close>, \<open>dns.Question\<close> and \<open>dns.Msg\<close> the code reads or writes.\<close>

datatype IP = IPv4 "8 word list" | IPv6 "8 word list"

datatype RData = RD_A IP | RD_AAAA IP | RD_Other string

record RR =
  rr_Name :: string
  rr_Rrtype :: "16 word"
  rr_Class :: "16 word"
  rr_Ttl :: "32 word"
  rr_Data :: RData

record Question =
  q_Name :: string
  q_Qtype :: "16 word"
  q_Qclass :: "16 word"

record Msg =
  msg_Id :: "16 word"
  msg_Rcode :: int
  msg_Truncated :: bool
  msg_Question :: "Question list"
  msg_Answer :: "RR list"
  msg_Ns :: "RR list"
  msg_Extra :: "RR list"

definition RcodeSuccess :: int where
  "RcodeSuccess = 0"

definition TypeA :: "16 word" where
  "TypeA = 1"

definition TypeAAAA :: "16 word" where
  "TypeAAAA = 28"

definition ClassINET :: "16 word" where
  "ClassINET = 1"

text \<open>
  Modelled from the spec: \<open>dnsutils.GetMinimalTTL\<close> and \<open>dnsutils.SetTTL\<close> are not under src/.
  The spec has the stored TTL be "the minimum TTL across the response's own records" and has
  a cache hit "recompute every record's advertised TTL". The records of a message are those
  of its answer, authority and additional sections. \<open>deferCacheStore_exec\<close> calls
  \<open>GetMinimalTTL\<close> only on a message with an answer record; on a message without records
  the model returns 0.
\<close>

definition msg_records :: "Msg \<Rightarrow> RR list" where
  "msg_records m = msg_Answer m @ msg_Ns m @ msg_Extra m"

fun min_ttl_list :: "32 word \<Rightarrow> RR list \<Rightarrow> 32 word" where
  "min_ttl_list acc [] = acc"
| "min_ttl_list acc (rr # rrs) = min_ttl_list (if rr_Ttl rr < acc then rr_Ttl rr else acc) rrs"

definition GetMinimalTTL :: "Msg \<Rightarrow> 32 word" where
  "GetMinimalTTL m =
     (case msg_records m of
        [] \<Rightarrow> 0
      | rr # rrs \<Rightarrow> min_ttl_list (rr_Ttl rr) rrs)"

definition SetTTL :: "Msg \<Rightarrow> 32 word \<Rightarrow> Msg" where
  "SetTTL m ttl =
     m\<lparr>msg_Answer := map (\<lambda>rr. rr\<lparr>rr_Ttl := ttl\<rparr>) (msg_Answer m),
       msg_Ns := map (\<lambda>rr. rr\<lparr>rr_Ttl := ttl\<rparr>) (msg_Ns m),
       msg_Extra := map (\<lambda>rr. rr\<lparr>rr_Ttl := ttl\<rparr>) (msg_Extra m)\<rparr>"

section \<open>The query context\<close>

text \<open>
  A \<open>*dns.Msg\<close> that the code shares and overwrites in place is an address of a store of
  messages; every address holds a message (a Go pointer that is not nil is never dangling).
\<close>

type_synonym msgPtr = nat

type_synonym msgStore = "msgPtr \<Rightarrow> Msg"

text \<open>
  Modelled from the spec: \<open>handler.Context\<close> is not under src/. The spec gives it the query
  message, the nilable current response, a status, and an ordered sequence of deferred
  actions; \<open>SetResponse\<close> "overwrites response and status" and \<open>DeferExec\<close> "appends an
  action". The only deferred action the code under src/ registers is a
  \<open>deferCacheStore\<close>, which holds the cache key (its pointer to the cache plugin is the
  environment the functions below take). The response is a reference to a message, \<open>None\<close>
  for nil; \<open>'m\<close> is the type of the references: an address of the message store for the
  cache plugin, which overwrites the message it is given in place and passes the pointer
  on, and the message itself for the hosts engine, which sets a message it has just built.
  The query is only read by the code under src/ and is held as its content.
\<close>

datatype ContextStatus =
    ContextStatusUnset
  | ContextStatusResponded
  | ContextStatusRejected
  | ContextStatusServerFailed

record deferCacheStore =
  d_key :: string

record 'm Context =
  qCtx_q :: Msg
  qCtx_r :: "'m option"
  qCtx_status :: ContextStatus
  qCtx_deferrable :: "deferCacheStore list"

definition Q :: "'m Context \<Rightarrow> Msg" where
  "Q qCtx = qCtx_q qCtx"

definition R :: "'m Context \<Rightarrow> 'm option" where
  "R qCtx = qCtx_r qCtx"

definition SetResponse :: "'m option \<Rightarrow> ContextStatus \<Rightarrow> 'm Context \<Rightarrow> 'm Context" where
  "SetResponse r st qCtx = qCtx\<lparr>qCtx_r := r, qCtx_status := st\<rparr>"

definition DeferExec :: "deferCacheStore \<Rightarrow> 'm Context \<Rightarrow> 'm Context" where
  "DeferExec e qCtx = qCtx\<lparr>qCtx_deferrable := qCtx_deferrable qCtx @ [e]\<rparr>"

section \<open>The cache plugin (dispatcher/plugin/cache/cache.go)\<close>

text \<open>
  The collaborators of the plugin that are not under src/ are parameters:
  \<open>utils.GetMsgKey\<close> (applied to the query with its second argument 0) and the two
  methods of the \<open>cache.DnsCache\<close> backend, which act on a backend state \<open>'b\<close> and on the
  message store (a backend may keep the pointer it is given or copy the message, and may
  return the pointer it keeps or a copy). \<open>Get\<close> returns Go's four results
  \<open>(v, ttl, ok, err)\<close>, \<open>v\<close> a pointer.
\<close>

record 'b cacheEnv =
  GetMsgKey :: "Msg \<Rightarrow> error + string"
  cache_Get :: "goContext \<Rightarrow> string \<Rightarrow> 'b \<Rightarrow> msgStore
    \<Rightarrow> (msgPtr option \<times> Duration \<times> bool \<times> error option) \<times> 'b \<times> msgStore"
  cache_Store :: "goContext \<Rightarrow> string \<Rightarrow> msgPtr \<Rightarrow> Duration \<Rightarrow> 'b \<Rightarrow> msgStore
    \<Rightarrow> error option \<times> 'b \<times> msgStore"

text \<open>
  What the plugin changes outside the query context: the backend, the message store, the
  logger (\<open>c.L().Warn\<close>, \<open>c.L().Debug\<close>), and a record of every call made to the backend,
  in order, with its arguments.
\<close>

datatype logLevel = DebugLevel | WarnLevel

datatype backendCall =
    GetCall string
  | StoreCall string msgPtr Duration

record 'b world =
  backend :: 'b
  msgs :: msgStore
  calls :: "backendCall list"
  logs :: "(logLevel \<times> string \<times> error option) list"

definition logWarn :: "string \<Rightarrow> error \<Rightarrow> 'b world \<Rightarrow> 'b world" where
  "logWarn msg err w = w\<lparr>logs := logs w @ [(WarnLevel, msg, Some err)]\<rparr>"

definition logDebugMsg :: "string \<Rightarrow> 'b world \<Rightarrow> 'b world" where
  "logDebugMsg msg w = w\<lparr>logs := logs w @ [(DebugLevel, msg, None)]\<rparr>"

text \<open>An assignment through a pointer: the message at the address is replaced.\<close>

definition assignMsg :: "msgPtr \<Rightarrow> Msg \<Rightarrow> 'b world \<Rightarrow> 'b world" where
  "assignMsg p m w = w\<lparr>msgs := (msgs w)(p := m)\<rparr>"

definition maxTTL :: "32 word" where
  "maxTTL = 3600 * 24 * 7"

definition callGet :: "'b cacheEnv \<Rightarrow> goContext \<Rightarrow> string \<Rightarrow> 'b world
    \<Rightarrow> (msgPtr option \<times> Duration \<times> bool \<times> error option) \<times> 'b world" where
  "callGet env ctx key w =
     (case cache_Get env ctx key (backend w) (msgs w) of
        (res, b', h') \<Rightarrow>
          (res, w\<lparr>backend := b', msgs := h', calls := calls w @ [GetCall key]\<rparr>))"

definition callStore :: "'b cacheEnv \<Rightarrow> goContext \<Rightarrow> string \<Rightarrow> msgPtr \<Rightarrow> Duration \<Rightarrow> 'b world
    \<Rightarrow> error option \<times> 'b world" where
  "callStore env ctx key v ttl w =
     (case cache_Store env ctx key v ttl (backend w) (msgs w) of
        (err, b', h') \<Rightarrow>
          (err, w\<lparr>backend := b', msgs := h', calls := calls w @ [StoreCall key v ttl]\<rparr>))"

text \<open>
  On a hit the code makes no copy: \<open>r.Id = q.Id\<close> and \<open>dnsutils.SetTTL(r, ...)\<close> overwrite
  the message \<open>Get\<close> returned, at its address, and \<open>SetResponse\<close> is given that pointer.
\<close>

definition cachePlugin_searchAndReply :: "'b cacheEnv \<Rightarrow> goContext \<Rightarrow> msgPtr Context \<Rightarrow> 'b world
    \<Rightarrow> (string \<times> bool) \<times> msgPtr Context \<times> 'b world" where
  "cachePlugin_searchAndReply env ctx qCtx w =
     (let q = Q qCtx in
      case GetMsgKey env q of
        Inl err \<Rightarrow> (('''', False), qCtx, logWarn ''unable to get msg key, skip it'' err w)
      | Inr key \<Rightarrow>
          (case callGet env ctx key w of
             ((r, ttl, ok, err), w1) \<Rightarrow>
               (case err of
                  Some e \<Rightarrow>
                    ((key, False), qCtx, logWarn ''unable to access cache, skip it'' e w1)
                | None \<Rightarrow>
                    (case r of
                       Some r \<Rightarrow>
                         (let w2 = logDebugMsg ''cache hit'' w1;
                              w3 = assignMsg r ((msgs w2 r)\<lparr>msg_Id := msg_Id q\<rparr>) w2;
                              w4 = assignMsg r
                                     (SetTTL (msgs w3 r) (ucast (Duration_div ttl time_Second))) w3
                          in ((key, True),
                              SetResponse (Some r) ContextStatusResponded qCtx,
                              w4))
                     | None \<Rightarrow> ((key, False), qCtx, w1)))))"

definition newDeferStore :: "string \<Rightarrow> deferCacheStore" where
  "newDeferStore key = \<lparr>d_key = key\<rparr>"

definition cachePlugin_ExecES :: "'b cacheEnv \<Rightarrow> goContext \<Rightarrow> msgPtr Context \<Rightarrow> 'b world
    \<Rightarrow> (bool \<times> error option) \<times> msgPtr Context \<times> 'b world" where
  "cachePlugin_ExecES env ctx qCtx w =
     (case cachePlugin_searchAndReply env ctx qCtx w of
        ((key, cacheHit), qCtx1, w1) \<Rightarrow>
          if cacheHit then ((True, None), qCtx1, w1)
          else if length key \<noteq> 0
               then ((False, None), DeferExec (newDeferStore key) qCtx1, w1)
               else ((False, None), qCtx1, w1))"

definition deferCacheStore_exec :: "'b cacheEnv \<Rightarrow> deferCacheStore \<Rightarrow> goContext \<Rightarrow> msgPtr Context
    \<Rightarrow> 'b world \<Rightarrow> error option \<times> 'b world" where
  "deferCacheStore_exec env d ctx qCtx w =
     (case R qCtx of
        None \<Rightarrow> (None, w)
      | Some r \<Rightarrow>
          if msg_Rcode (msgs w r) = RcodeSuccess \<and> msg_Truncated (msgs w r) = False
             \<and> length (msg_Answer (msgs w r)) \<noteq> 0
          then (let ttl = GetMinimalTTL (msgs w r);
                    ttl = (if ttl > maxTTL then maxTTL else ttl)
                in callStore env ctx (d_key d) r (ucast ttl * time_Second) w)
          else (None, w))"

definition deferCacheStore_Exec :: "'b cacheEnv \<Rightarrow> deferCacheStore \<Rightarrow> goContext \<Rightarrow> msgPtr Context
    \<Rightarrow> 'b world \<Rightarrow> error option \<times> 'b world" where
  "deferCacheStore_Exec env d ctx qCtx w =
     (case deferCacheStore_exec env d ctx qCtx w of
        (err, w1) \<Rightarrow>
          (case err of
             Some e \<Rightarrow> (None, logWarn ''failed to cache the data'' e w1)
           | None \<Rightarrow> (None, w1)))"

text \<open>
  \<open>Connect\<close> receives the remainder of the chain as \<open>pipeCtx.ExecNextPlugin\<close>
  (\<open>handler.PipeContext\<close> is not under src/): a parameter acting on the query context and
  on the state \<open>'s\<close> the plugins share (for the cache plugin, its world).
\<close>

type_synonym ('m, 's) PipeContext =
  "goContext \<Rightarrow> 'm Context \<Rightarrow> 's \<Rightarrow> error option \<times> 'm Context \<times> 's"

definition cachePlugin_Connect :: "'b cacheEnv \<Rightarrow> goContext \<Rightarrow> msgPtr Context
    \<Rightarrow> (msgPtr, 'b world) PipeContext
    \<Rightarrow> 'b world \<Rightarrow> error option \<times> msgPtr Context \<times> 'b world" where
  "cachePlugin_Connect env ctx qCtx ExecNextPlugin w =
     (case cachePlugin_searchAndReply env ctx qCtx w of
        ((key, cacheHit), qCtx1, w1) \<Rightarrow>
          if cacheHit then (None, qCtx1, w1)
          else (case ExecNextPlugin ctx qCtx1 w1 of
                  (err, qCtx2, w2) \<Rightarrow>
                    (case err of
                       Some e \<Rightarrow> (Some e, qCtx2, w2)
                     | None \<Rightarrow>
                         if length key \<noteq> 0
                         then (case deferCacheStore_Exec env (newDeferStore key) ctx qCtx2 w2 of
                                 (_, w3) \<Rightarrow> (None, qCtx2, w3))
                         else (None, qCtx2, w2))))"

text \<open>
  Modelled from the spec: the code that runs a chain and the deferred actions of a
  \<open>handler.Context\<close> is not under src/. The spec has the deferred actions "executed after
  the pipeline completes (or at early-stop), in attachment order", each failure isolated
  from the next action. \<open>ExecDefer\<close> runs a list of deferred actions in order on the final
  query context. \<open>run_ExecES_mode\<close> is a chain made of the cache plugin used as an
  executable, then the remainder of the chain unless the plugin stopped the chain, then the
  deferred actions of the context. The spec does not say whether the deferred actions run
  after a remainder that returned an error: the parameter \<open>deferAfterError\<close> is that
  choice, and what is proved below is proved for both values.
\<close>

fun ExecDefer :: "'b cacheEnv \<Rightarrow> goContext \<Rightarrow> deferCacheStore list \<Rightarrow> msgPtr Context \<Rightarrow> 'b world
    \<Rightarrow> 'b world" where
  "ExecDefer env ctx [] qCtx w = w"
| "ExecDefer env ctx (d # ds) qCtx w =
     (case deferCacheStore_Exec env d ctx qCtx w of (_, w1) \<Rightarrow> ExecDefer env ctx ds qCtx w1)"

definition afterChain :: "bool \<Rightarrow> 'b cacheEnv \<Rightarrow> goContext \<Rightarrow> error option \<Rightarrow> msgPtr Context \<Rightarrow> 'b world
    \<Rightarrow> error option \<times> msgPtr Context \<times> 'b world" where
  "afterChain deferAfterError env ctx err qCtx w =
     (if err = None \<or> deferAfterError
      then (err, qCtx, ExecDefer env ctx (qCtx_deferrable qCtx) qCtx w)
      else (err, qCtx, w))"

definition run_ExecES_mode :: "bool \<Rightarrow> 'b cacheEnv \<Rightarrow> goContext \<Rightarrow> msgPtr Context
    \<Rightarrow> (msgPtr, 'b world) PipeContext
    \<Rightarrow> 'b world \<Rightarrow> error option \<times> msgPtr Context \<times> 'b world" where
  "run_ExecES_mode deferAfterError env ctx qCtx rest w =
     (case cachePlugin_ExecES env ctx qCtx w of
        ((earlyStop, err), qCtx1, w1) \<Rightarrow>
          if earlyStop then afterChain deferAfterError env ctx None qCtx1 w1
          else (case rest ctx qCtx1 w1 of
                  (err2, qCtx2, w2) \<Rightarrow> afterChain deferAfterError env ctx err2 qCtx2 w2))"

text \<open>
  Modelled from the spec: the same chain (not under src/) with the cache plugin used as a
  connector: \<open>Connect\<close> runs the remainder itself, and the deferred actions of the context
  run after it returns, under the same choice after an error.
\<close>

definition run_Connect_mode :: "bool \<Rightarrow> 'b cacheEnv \<Rightarrow> goContext \<Rightarrow> msgPtr Context
    \<Rightarrow> (msgPtr, 'b world) PipeContext
    \<Rightarrow> 'b world \<Rightarrow> error option \<times> msgPtr Context \<times> 'b world" where
  "run_Connect_mode deferAfterError env ctx qCtx rest w =
     (case cachePlugin_Connect env ctx qCtx rest w of
        (err, qCtx1, w1) \<Rightarrow> afterChain deferAfterError env ctx err qCtx1 w1)"

text \<open>
  Modelled from the spec: the plugins of the remainder of a chain are not under src/. The
  spec gives a plugin one operation on the deferred actions of a context, \<open>DeferExec\<close>,
  which appends. \<open>withDeferExec f\<close> is a remainder with that access only: \<open>f\<close> runs on the
  context without the actions attached so far, and the actions it attaches are appended
  to them.
\<close>

definition withDeferExec :: "('m, 's) PipeContext \<Rightarrow> ('m, 's) PipeContext" where
  "withDeferExec f ctx qCtx s =
     (case f ctx (qCtx\<lparr>qCtx_deferrable := []\<rparr>) s of
        (err, qCtx', s') \<Rightarrow>
          (err, qCtx'\<lparr>qCtx_deferrable := qCtx_deferrable qCtx @ qCtx_deferrable qCtx'\<rparr>, s'))"

text \<open>
  Modelled from the spec: the implementations of \<open>cache.DnsCache\<close> are not under src/.
  The spec's contract for \<open>Store\<close> is "upserts; ttl <= 0 is a no-op, not an error".
  \<open>specStore\<close> is a \<open>Store\<close> under that contract, on a backend that keeps, for a key, the
  content of the message and the TTL it was stored with.
\<close>

type_synonym specBackend = "string \<Rightarrow> (Msg \<times> Duration) option"

definition specStore :: "goContext \<Rightarrow> string \<Rightarrow> msgPtr \<Rightarrow> Duration \<Rightarrow> specBackend \<Rightarrow> msgStore
    \<Rightarrow> error option \<times> specBackend \<times> msgStore" where
  "specStore ctx key v ttl b h =
     (if sint ttl \<le> 0 then (None, b, h) else (None, b(key \<mapsto> (h v, ttl)), h))"

section \<open>The plugin wrapper (package handler)\<close>

text \<open>
  A plugin has a tag and a type name and implements any subset of five interfaces. Each
  method acts on the query context and on a state \<open>'s\<close> (whatever else the plugin reads or
  changes); \<open>None\<close> in a field says that the Go type assertion to that interface fails.
\<close>

type_synonym ('m, 's) Executable =
  "goContext \<Rightarrow> 'm Context \<Rightarrow> 's \<Rightarrow> error option \<times> 'm Context \<times> 's"

type_synonym ('m, 's) ESExecutable =
  "goContext \<Rightarrow> 'm Context \<Rightarrow> 's \<Rightarrow> (bool \<times> error option) \<times> 'm Context \<times> 's"

type_synonym ('m, 's) Matcher =
  "goContext \<Rightarrow> 'm Context \<Rightarrow> 's \<Rightarrow> (bool \<times> error option) \<times> 'm Context \<times> 's"

type_synonym ('m, 's) ContextConnector =
  "goContext \<Rightarrow> 'm Context \<Rightarrow> ('m, 's) PipeContext \<Rightarrow> 's
    \<Rightarrow> error option \<times> 'm Context \<times> 's"

type_synonym 's Service = "'s \<Rightarrow> error option \<times> 's"

record ('m, 's) Plugin =
  p_Tag :: string
  p_Type :: string
  p_Executable :: "('m, 's) Executable option"
  p_ESExecutable :: "('m, 's) ESExecutable option"
  p_Matcher :: "('m, 's) Matcher option"
  p_ContextConnector :: "('m, 's) ContextConnector option"
  p_Service :: "'s Service option"

record ('m, 's) PluginWrapper =
  w_p :: "('m, 's) Plugin"
  w_e :: "('m, 's) Executable option"
  w_se :: "('m, 's) ESExecutable option"
  w_m :: "('m, 's) Matcher option"
  w_cc :: "('m, 's) ContextConnector option"
  w_s :: "'s Service option"

definition NewPluginWrapper :: "('m, 's) Plugin \<Rightarrow> ('m, 's) PluginWrapper" where
  "NewPluginWrapper gp =
     \<lparr>w_p = gp,
      w_e = p_Executable gp,
      w_se = p_ESExecutable gp,
      w_m = p_Matcher gp,
      w_cc = p_ContextConnector gp,
      w_s = p_Service gp\<rparr>"

definition GetPlugin :: "('m, 's) PluginWrapper \<Rightarrow> ('m, 's) Plugin" where
  "GetPlugin w = w_p w"

text \<open>
  What a wrapper call leaves behind: the debug events of \<open>mlog.L()\<close>, a record of every
  interface method of the underlying plugin that was invoked, in order, and the state the
  plugin acts on. A debug event holds the message and the plugin's tag (\<open>logDebug\<close> reads
  \<open>w.p.Tag()\<close>; the info field of the query context, which \<open>handler.Context\<close> would
  supply, is left out).
\<close>

datatype pluginMethod = M_Exec | M_ExecES | M_Match | M_Connect | M_Shutdown

datatype handlerEvent =
    DebugEvent string string
  | Invoked pluginMethod

record 's handlerWorld =
  hw_events :: "handlerEvent list"
  hw_state :: 's

definition logDebug :: "('m, 's) PluginWrapper \<Rightarrow> 'm Context \<Rightarrow> 's handlerWorld \<Rightarrow> 's handlerWorld" where
  "logDebug w qCtx hw = hw\<lparr>hw_events := hw_events hw @ [DebugEvent ''exec plugin'' (p_Tag (w_p w))]\<rparr>"

definition invoked :: "pluginMethod \<Rightarrow> 's \<Rightarrow> 's handlerWorld \<Rightarrow> 's handlerWorld" where
  "invoked m s' hw = hw\<lparr>hw_events := hw_events hw @ [Invoked m], hw_state := s'\<rparr>"

definition notA :: "('m, 's) PluginWrapper \<Rightarrow> string \<Rightarrow> error" where
  "notA w what =
     Errorf (''plugin tag: '' @ p_Tag (w_p w) @ '', type: '' @ p_Type (w_p w) @ '' is not '' @ what)"

definition PluginWrapper_Connect :: "('m, 's) PluginWrapper \<Rightarrow> goContext \<Rightarrow> 'm Context \<Rightarrow> ('m, 's) PipeContext
    \<Rightarrow> 's handlerWorld \<Rightarrow> error option \<times> 'm Context \<times> 's handlerWorld" where
  "PluginWrapper_Connect w ctx qCtx pipeCtx hw =
     (let hw1 = logDebug w qCtx hw in
      case ctx_Err ctx of
        Some err \<Rightarrow> (Some err, qCtx, hw1)
      | None \<Rightarrow>
          (case w_cc w of
             None \<Rightarrow> (Some (notA w ''a ContextConnector''), qCtx, hw1)
           | Some cc \<Rightarrow>
               (case cc ctx qCtx pipeCtx (hw_state hw1) of
                  (err, qCtx', s') \<Rightarrow>
                    (case err of
                       Some e \<Rightarrow> (Some (NewPluginError (p_Tag (w_p w)) e), qCtx', invoked M_Connect s' hw1)
                     | None \<Rightarrow> (None, qCtx', invoked M_Connect s' hw1)))))"

definition PluginWrapper_Match :: "('m, 's) PluginWrapper \<Rightarrow> goContext \<Rightarrow> 'm Context
    \<Rightarrow> 's handlerWorld \<Rightarrow> (bool \<times> error option) \<times> 'm Context \<times> 's handlerWorld" where
  "PluginWrapper_Match w ctx qCtx hw =
     (let hw1 = logDebug w qCtx hw in
      case ctx_Err ctx of
        Some err \<Rightarrow> ((False, Some err), qCtx, hw1)
      | None \<Rightarrow>
          (case w_m w of
             None \<Rightarrow> ((False, Some (notA w ''a Matcher'')), qCtx, hw1)
           | Some m \<Rightarrow>
               (case m ctx qCtx (hw_state hw1) of
                  ((matched, err), qCtx', s') \<Rightarrow>
                    (case err of
                       Some e \<Rightarrow>
                         ((False, Some (NewPluginError (p_Tag (w_p w)) e)), qCtx', invoked M_Match s' hw1)
                     | None \<Rightarrow> ((matched, None), qCtx', invoked M_Match s' hw1)))))"

definition PluginWrapper_ExecES :: "('m, 's) PluginWrapper \<Rightarrow> goContext \<Rightarrow> 'm Context
    \<Rightarrow> 's handlerWorld \<Rightarrow> (bool \<times> error option) \<times> 'm Context \<times> 's handlerWorld" where
  "PluginWrapper_ExecES w ctx qCtx hw =
     (let hw1 = logDebug w qCtx hw in
      case ctx_Err ctx of
        Some err \<Rightarrow> ((False, Some err), qCtx, hw1)
      | None \<Rightarrow>
          (case (case w_se w of
                   Some se \<Rightarrow>
                     (case se ctx qCtx (hw_state hw1) of
                        ((earlyStop, err), qCtx', s') \<Rightarrow>
                          ((earlyStop, err), qCtx', invoked M_ExecES s' hw1))
                 | None \<Rightarrow>
                     (case w_e w of
                        Some e \<Rightarrow>
                          (case e ctx qCtx (hw_state hw1) of
                             (err, qCtx', s') \<Rightarrow> ((False, err), qCtx', invoked M_Exec s' hw1))
                      | None \<Rightarrow>
                          ((False, Some (notA w ''an ESExecutable nor Executable'')), qCtx, hw1)))
           of ((earlyStop, err), qCtx', hw2) \<Rightarrow>
                (case err of
                   Some e \<Rightarrow> ((False, Some (NewPluginError (p_Tag (w_p w)) e)), qCtx', hw2)
                 | None \<Rightarrow> ((earlyStop, None), qCtx', hw2))))"

definition PluginWrapper_Shutdown :: "('m, 's) PluginWrapper \<Rightarrow> 's handlerWorld
    \<Rightarrow> error option \<times> 's handlerWorld" where
  "PluginWrapper_Shutdown w hw =
     (case w_s w of
        None \<Rightarrow> (Some (notA w ''a Service''), hw)
      | Some s \<Rightarrow> (case s (hw_state hw) of (err, s') \<Rightarrow> (err, invoked M_Shutdown s' hw)))"

text \<open>
  \<open>PluginInterfaceType\<close> is a uint8 with four named values; \<open>Is\<close> panics on any other
  value. A panic is \<open>Inl\<close> of its message, which prints the value in decimal.
\<close>

type_synonym PluginInterfaceType = "8 word"

definition PITESExecutable :: PluginInterfaceType where
  "PITESExecutable = 0"

definition PITMatcher :: PluginInterfaceType where
  "PITMatcher = 1"

definition PITContextConnector :: PluginInterfaceType where
  "PITContextConnector = 2"

definition PITService :: PluginInterfaceType where
  "PITService = 3"

definition decimal_uint8 :: "8 word \<Rightarrow> string" where
  "decimal_uint8 t =
     (let n = unat t;
          digit = (\<lambda>d. char_of (48 + d))
      in (if 100 \<le> n then [digit (n div 100)] else [])
         @ (if 10 \<le> n then [digit (n div 10 mod 10)] else [])
         @ [digit (n mod 10)])"

definition PluginWrapper_Is :: "('m, 's) PluginWrapper \<Rightarrow> PluginInterfaceType \<Rightarrow> string + bool" where
  "PluginWrapper_Is w t =
     (if t = PITESExecutable then Inr (w_se w \<noteq> None \<or> w_e w \<noteq> None)
      else if t = PITMatcher then Inr (w_m w \<noteq> None)
      else if t = PITContextConnector then Inr (w_cc w \<noteq> None)
      else if t = PITService then Inr (w_s w \<noteq> None)
      else Inl (''hander: invalid PluginInterfaceType: '' @ decimal_uint8 t))"

section \<open>The hosts table (package hosts)\<close>

text \<open>
  Modelled from the spec: of package hosts only the test \<open>Test_hostsContainer_Match\<close> is
  under src/; \<open>hostsContainer.matchAndSet\<close>, \<open>domain.MixMatcher\<close>,
  \<open>domain.LoadFromTextReader\<close> and \<open>parseIP\<close> are missing. The definitions of this section
  follow the spec's section 4.3 and its data model:
  \<^item> a table line is a pattern with one or more addresses; a pattern is "either a literal
    domain (case-insensitive, matched against fully-qualified names) or a regexp:-prefixed
    pattern matched against the name with anchors as written";
  \<^item> "multiple source lines for the same exact pattern are appended, not replaced";
  \<^item> "literal patterns match the exact name only (not subdomains); regexp patterns match per
    their expression verbatim";
  \<^item> on a match for a query of type A or AAAA the engine "synthesizes answer records for
    exactly the matched entry's addresses of the matching family", sets the status to
    Responded and copies the query ID; "unmatched names leave the context untouched and
    report matched=false".
  Reading the text source (comments, blank lines, address literals, compiling a regular
  expression) is not modelled: a line is a parsed pattern with its parsed addresses. Where
  the spec leaves a choice open the model takes the one it suggests or the simplest: a
  literal entry wins over a regexp entry, regexp entries are tried in table order, a query
  of another type or without exactly one question is reported unmatched, and a synthesized
  record carries the TTL \<open>hostsTTL\<close>.
\<close>

datatype rexp =
    REmpty
  | REps
  | RChar char
  | RAny
  | RAlt rexp rexp
  | RSeq rexp rexp
  | RStar rexp

record regexp =
  re_bol :: bool
  re_body :: rexp
  re_eol :: bool

fun nullable :: "rexp \<Rightarrow> bool" where
  "nullable REmpty = False"
| "nullable REps = True"
| "nullable (RChar c) = False"
| "nullable RAny = False"
| "nullable (RAlt a b) = (nullable a \<or> nullable b)"
| "nullable (RSeq a b) = (nullable a \<and> nullable b)"
| "nullable (RStar a) = True"

fun deriv :: "char \<Rightarrow> rexp \<Rightarrow> rexp" where
  "deriv c REmpty = REmpty"
| "deriv c REps = REmpty"
| "deriv c (RChar d) = (if c = d then REps else REmpty)"
| "deriv c RAny = REps"
| "deriv c (RAlt a b) = RAlt (deriv c a) (deriv c b)"
| "deriv c (RSeq a b) =
     (if nullable a then RAlt (RSeq (deriv c a) b) (deriv c b) else RSeq (deriv c a) b)"
| "deriv c (RStar a) = RSeq (deriv c a) (RStar a)"

fun full_match :: "rexp \<Rightarrow> string \<Rightarrow> bool" where
  "full_match r [] = nullable r"
| "full_match r (c # cs) = full_match (deriv c r) cs"

fun prefix_match :: "rexp \<Rightarrow> string \<Rightarrow> bool" where
  "prefix_match r [] = nullable r"
| "prefix_match r (c # cs) = (nullable r \<or> prefix_match (deriv c r) cs)"

fun search_match :: "(rexp \<Rightarrow> string \<Rightarrow> bool) \<Rightarrow> rexp \<Rightarrow> string \<Rightarrow> bool" where
  "search_match m r [] = m r []"
| "search_match m r (c # cs) = (m r (c # cs) \<or> search_match m r cs)"

definition MatchString :: "regexp \<Rightarrow> string \<Rightarrow> bool" where
  "MatchString re s =
     (if re_bol re
      then (if re_eol re then full_match (re_body re) s else prefix_match (re_body re) s)
      else (if re_eol re then search_match full_match (re_body re) s
            else search_match prefix_match (re_body re) s))"

text \<open>The meaning of a regular expression, against which \<open>MatchString\<close> is verified.\<close>

inductive_set star :: "string set \<Rightarrow> string set" for A :: "string set" where
  star_nil: "[] \<in> star A"
| star_app: "u \<in> A \<Longrightarrow> v \<in> star A \<Longrightarrow> u @ v \<in> star A"

fun lang :: "rexp \<Rightarrow> string set" where
  "lang REmpty = {}"
| "lang REps = {[]}"
| "lang (RChar c) = {[c]}"
| "lang RAny = {s. length s = 1}"
| "lang (RAlt a b) = lang a \<union> lang b"
| "lang (RSeq a b) = {u @ v | u v. u \<in> lang a \<and> v \<in> lang b}"
| "lang (RStar a) = star (lang a)"

datatype hostPattern = Full string | Regexp regexp

type_synonym hostsLine = "hostPattern \<times> IP list"

record MixMatcher =
  mm_full :: "(string \<times> IP list) list"
  mm_regex :: "(regexp \<times> IP list) list"

definition toLower :: "char \<Rightarrow> char" where
  "toLower c =
     (let n = (of_char c :: nat) in if 65 \<le> n \<and> n \<le> 90 then char_of (n + 32) else c)"

definition Fqdn :: "string \<Rightarrow> string" where
  "Fqdn s = (if s \<noteq> [] \<and> last s = CHR ''.'' then s else s @ ''.'')"

definition normalize_name :: "string \<Rightarrow> string" where
  "normalize_name s = map toLower (Fqdn s)"

fun add_full :: "string \<Rightarrow> IP list \<Rightarrow> (string \<times> IP list) list \<Rightarrow> (string \<times> IP list) list" where
  "add_full k v [] = [(k, v)]"
| "add_full k v ((k', v') # t) =
     (if k = k' then (k', v' @ v) # t else (k', v') # add_full k v t)"

definition NewMixMatcher :: MixMatcher where
  "NewMixMatcher = \<lparr>mm_full = [], mm_regex = []\<rparr>"

definition Add :: "MixMatcher \<Rightarrow> hostsLine \<Rightarrow> MixMatcher" where
  "Add m line =
     (case line of
        (Full p, ips) \<Rightarrow> m\<lparr>mm_full := add_full (normalize_name p) ips (mm_full m)\<rparr>
      | (Regexp re, ips) \<Rightarrow> m\<lparr>mm_regex := mm_regex m @ [(re, ips)]\<rparr>)"

definition Load :: "hostsLine list \<Rightarrow> MixMatcher" where
  "Load ls = foldl Add NewMixMatcher ls"

definition Match :: "MixMatcher \<Rightarrow> string \<Rightarrow> IP list option" where
  "Match m name =
     (case map_of (mm_full m) (normalize_name name) of
        Some ips \<Rightarrow> Some ips
      | None \<Rightarrow>
          (case find (\<lambda>(re, ips). MatchString re name) (mm_regex m) of
             Some (re, ips) \<Rightarrow> Some ips
           | None \<Rightarrow> None))"

text \<open>
  The addresses the lines of a table give for an exact name, line by line, and the regexp
  lines of a table, in table order.
\<close>

definition full_lines :: "hostsLine list \<Rightarrow> string \<Rightarrow> IP list list" where
  "full_lines ls k = [ips. (Full p, ips) \<leftarrow> ls, normalize_name p = k]"

definition regex_lines :: "hostsLine list \<Rightarrow> (regexp \<times> IP list) list" where
  "regex_lines ls = [(re, ips). (Regexp re, ips) \<leftarrow> ls]"

definition hostsTTL :: "32 word" where
  "hostsTTL = 3600"

fun is_v4 :: "IP \<Rightarrow> bool" where
  "is_v4 (IPv4 bs) = True"
| "is_v4 (IPv6 bs) = False"

definition answers :: "string \<Rightarrow> 16 word \<Rightarrow> IP list \<Rightarrow> RR list" where
  "answers name typ ips =
     (if typ = TypeA
      then map (\<lambda>ip. \<lparr>rr_Name = name, rr_Rrtype = TypeA, rr_Class = ClassINET,
                      rr_Ttl = hostsTTL, rr_Data = RD_A ip\<rparr>) (filter is_v4 ips)
      else map (\<lambda>ip. \<lparr>rr_Name = name, rr_Rrtype = TypeAAAA, rr_Class = ClassINET,
                      rr_Ttl = hostsTTL, rr_Data = RD_AAAA ip\<rparr>) (filter (\<lambda>ip. \<not> is_v4 ip) ips))"

definition matchAndSet :: "MixMatcher \<Rightarrow> Msg Context \<Rightarrow> bool \<times> Msg Context" where
  "matchAndSet m qCtx =
     (case msg_Question (Q qCtx) of
        [qu] \<Rightarrow>
          if q_Qtype qu = TypeA \<or> q_Qtype qu = TypeAAAA
          then (case Match m (q_Name qu) of
                  None \<Rightarrow> (False, qCtx)
                | Some ips \<Rightarrow>
                    (True,
                     SetResponse
                       (Some \<lparr>msg_Id = msg_Id (Q qCtx), msg_Rcode = RcodeSuccess,
                              msg_Truncated = False, msg_Question = [qu],
                              msg_Answer = answers (q_Name qu) (q_Qtype qu) ips,
                              msg_Ns = [], msg_Extra = []\<rparr>)
                       ContextStatusResponded qCtx))
          else (False, qCtx)
      | _ \<Rightarrow> (False, qCtx))"

text \<open>The table and the queries of \<open>Test_hostsContainer_Match\<close> (src/unnamed/part_000).\<close>

definition test_hosts :: "hostsLine list" where
  "test_hosts =
     [(Full ''dns.google'',
         [IPv4 [8, 8, 8, 8], IPv4 [8, 8, 4, 4],
          IPv6 [0x20, 0x01, 0x48, 0x60, 0x48, 0x60, 0, 0, 0, 0, 0, 0, 0, 0, 0x88, 0x44],
          IPv6 [0x20, 0x01, 0x48, 0x60, 0x48, 0x60, 0, 0, 0, 0, 0, 0, 0, 0, 0x88, 0x88]]),
      (Regexp \<lparr>re_bol = True,
               re_body = foldr (\<lambda>c r. RSeq (RChar c) r) ''123456789'' REps,
               re_eol = False\<rparr>,
         [IPv4 [192, 168, 1, 1]]),
      (Full ''test.com'', [IPv4 [1, 2, 3, 4]]),
      (Full ''test.com'', [IPv4 [2, 3, 4, 5]])]"

definition SetQuestion :: "string \<Rightarrow> 16 word \<Rightarrow> Msg" where
  "SetQuestion name typ =
     \<lparr>msg_Id = 0, msg_Rcode = 0, msg_Truncated = False,
      msg_Question = [\<lparr>q_Name = name, q_Qtype = typ, q_Qclass = ClassINET\<rparr>],
      msg_Answer = [], msg_Ns = [], msg_Extra = []\<rparr>"

definition NewContext :: "Msg \<Rightarrow> 'm Context" where
  "NewContext q = \<lparr>qCtx_q = q, qCtx_r = None, qCtx_status = ContextStatusUnset, qCtx_deferrable = []\<rparr>"

definition test_run :: "string \<Rightarrow> 16 word \<Rightarrow> bool \<times> IP list" where
  "test_run name typ =
     (case matchAndSet (Load test_hosts) (NewContext (SetQuestion name typ)) of
        (matched, qCtx) \<Rightarrow>
          (matched,
           case R qCtx of
             None \<Rightarrow> []
           | Some r \<Rightarrow>
               concat (map (\<lambda>rr. case rr_Data rr of RD_A ip \<Rightarrow> [ip] | RD_AAAA ip \<Rightarrow> [ip] | _ \<Rightarrow> [])
                           (msg_Answer r))))"

section \<open>Concrete inputs\<close>

text \<open>
  A backend double for the cache plugin: every key derivation returns \<open>keyRes\<close>, every
  \<open>Get\<close> returns \<open>getRes\<close> (a pointer as it is, without a copy), every \<open>Store\<close> keeps
  its arguments, newest first, and returns \<open>storeRes\<close>. \<open>specEnv\<close> is the same double
  with \<open>specStore\<close> as its \<open>Store\<close>.
\<close>

definition stubEnv :: "(error + string) \<Rightarrow> (msgPtr option \<times> Duration \<times> bool \<times> error option)
    \<Rightarrow> error option \<Rightarrow> (string \<times> msgPtr \<times> Duration) list cacheEnv" where
  "stubEnv keyRes getRes storeRes =
     \<lparr>GetMsgKey = (\<lambda>q. keyRes),
      cache_Get = (\<lambda>ctx key b h. (getRes, b, h)),
      cache_Store = (\<lambda>ctx key v ttl b h. (storeRes, (key, v, ttl) # b, h))\<rparr>"

definition specEnv :: "(error + string) \<Rightarrow> (msgPtr option \<times> Duration \<times> bool \<times> error option)
    \<Rightarrow> specBackend cacheEnv" where
  "specEnv keyRes getRes =
     \<lparr>GetMsgKey = (\<lambda>q. keyRes),
      cache_Get = (\<lambda>ctx key b h. (getRes, b, h)),
      cache_Store = specStore\<rparr>"

definition exampleRR :: "32 word \<Rightarrow> RR" where
  "exampleRR ttl = \<lparr>rr_Name = ''example.com.'', rr_Rrtype = TypeA, rr_Class = ClassINET,
     rr_Ttl = ttl, rr_Data = RD_A (IPv4 [1, 2, 3, 4])\<rparr>"

definition exampleQuery :: Msg where
  "exampleQuery = \<lparr>msg_Id = 42, msg_Rcode = 0, msg_Truncated = False,
     msg_Question = [\<lparr>q_Name = ''example.com.'', q_Qtype = TypeA, q_Qclass = ClassINET\<rparr>],
     msg_Answer = [], msg_Ns = [], msg_Extra = []\<rparr>"

definition exampleResponse :: "32 word list \<Rightarrow> Msg" where
  "exampleResponse ttls = exampleQuery\<lparr>msg_Id := 7, msg_Answer := map exampleRR ttls\<rparr>"

definition exampleContext :: "'m option \<Rightarrow> 'm Context" where
  "exampleContext r = \<lparr>qCtx_q = exampleQuery, qCtx_r = r, qCtx_status = ContextStatusUnset,
     qCtx_deferrable = []\<rparr>"

text \<open>
  A world with an empty backend, no calls and no log entries, in which every address of
  the message store holds the message \<open>m\<close>; \<open>specWorld\<close> is that world for \<open>specEnv\<close>.
\<close>

definition emptyWorld :: "Msg \<Rightarrow> (string \<times> msgPtr \<times> Duration) list world" where
  "emptyWorld m = \<lparr>backend = [], msgs = (\<lambda>p. m), calls = [], logs = []\<rparr>"

definition specWorld :: "Msg \<Rightarrow> specBackend world" where
  "specWorld m = \<lparr>backend = (\<lambda>k. None), msgs = (\<lambda>p. m), calls = [], logs = []\<rparr>"

definition liveCtx :: goContext where
  "liveCtx = \<lparr>ctx_Err = None\<rparr>"

definition cancelledCtx :: goContext where
  "cancelledCtx = \<lparr>ctx_Err = Some Canceled\<rparr>"

text \<open>
  Plugins over a call counter: each method counts the call and returns \<open>res\<close>.
  \<open>execOnlyPlugin\<close> implements Executable only, \<open>servicePlugin\<close> Service only,
  \<open>allRolesPlugin\<close> every interface.
\<close>

definition execOnlyPlugin :: "error option \<Rightarrow> (msgPtr, nat) Plugin" where
  "execOnlyPlugin res =
     \<lparr>p_Tag = ''exec'', p_Type = ''test'',
      p_Executable = Some (\<lambda>ctx qCtx n. (res, qCtx, Suc n)),
      p_ESExecutable = None, p_Matcher = None, p_ContextConnector = None, p_Service = None\<rparr>"

definition servicePlugin :: "error option \<Rightarrow> (msgPtr, nat) Plugin" where
  "servicePlugin res =
     \<lparr>p_Tag = ''svc'', p_Type = ''test'',
      p_Executable = None, p_ESExecutable = None, p_Matcher = None, p_ContextConnector = None,
      p_Service = Some (\<lambda>n. (res, Suc n))\<rparr>"

definition allRolesPlugin :: "error option \<Rightarrow> (msgPtr, nat) Plugin" where
  "allRolesPlugin res =
     \<lparr>p_Tag = ''all'', p_Type = ''test'',
      p_Executable = Some (\<lambda>ctx qCtx n. (res, qCtx, Suc n)),
      p_ESExecutable = Some (\<lambda>ctx qCtx n. ((True, res), qCtx, Suc n)),
      p_Matcher = Some (\<lambda>ctx qCtx n. ((True, res), qCtx, Suc n)),
      p_ContextConnector = Some (\<lambda>ctx qCtx pipeCtx n. (res, qCtx, Suc n)),
      p_Service = Some (\<lambda>n. (res, Suc n))\<rparr>"

definition idlePipe :: "(msgPtr, nat) PipeContext" where
  "idlePipe = (\<lambda>ctx qCtx n. (None, qCtx, n))"

definition freshHandlerWorld :: "nat handlerWorld" where
  "freshHandlerWorld = \<lparr>hw_events = [], hw_state = 0\<rparr>"


definition failingRest :: "(msgPtr, (string \<times> msgPtr \<times> Duration) list world) PipeContext" where
  "failingRest =
     (\<lambda>ctx qCtx w. (Some (OtherError ''upstream''),
                    SetResponse (Some 1) ContextStatusResponded qCtx,
                    assignMsg 1 (exampleResponse [60]) w))"

section \<open>Facts about the helpers\<close>

lemmas fixture_defs = stubEnv_def specEnv_def exampleRR_def exampleQuery_def exampleResponse_def
  exampleContext_def emptyWorld_def specWorld_def liveCtx_def cancelledCtx_def

lemmas cache_defs = deferCacheStore_Exec_def deferCacheStore_exec_def callStore_def callGet_def
  cachePlugin_searchAndReply_def cachePlugin_ExecES_def cachePlugin_Connect_def
  newDeferStore_def DeferExec_def SetResponse_def Q_def R_def logWarn_def logDebugMsg_def
  assignMsg_def GetMinimalTTL_def msg_records_def SetTTL_def maxTTL_def time_Second_def
  RcodeSuccess_def

lemmas wrapper_defs = PluginWrapper_ExecES_def PluginWrapper_Match_def PluginWrapper_Connect_def
  PluginWrapper_Shutdown_def logDebug_def invoked_def notA_def NewPluginWrapper_def

lemmas plugin_fixture_defs = execOnlyPlugin_def servicePlugin_def allRolesPlugin_def idlePipe_def
  freshHandlerWorld_def liveCtx_def cancelledCtx_def

lemma Min_insert_insert:
  fixes a :: nat
  assumes "finite S"
  shows "Min (insert a (insert b S)) = Min (insert (min a b) S)"
proof (cases "S = {}")
  case True
  then show ?thesis by simp
next
  case False
  with assms show ?thesis by (simp add: min.assoc)
qed

lemma min_ttl_list_unat:
  "unat (min_ttl_list acc rrs) = Min (insert (unat acc) (set (map (\<lambda>rr. unat (rr_Ttl rr)) rrs)))"
proof (induction rrs arbitrary: acc)
  case Nil
  then show ?case by simp
next
  case (Cons rr rrs)
  have step: "unat (if rr_Ttl rr < acc then rr_Ttl rr else acc) = min (unat acc) (unat (rr_Ttl rr))"
    by (auto simp: word_less_nat_alt min_def)
  show ?case
    by (simp only: min_ttl_list.simps Cons.IH step list.map list.set Min_insert_insert [OF finite_set])
qed

lemma GetMinimalTTL_Min:
  assumes "msg_Answer m \<noteq> []"
  shows "unat (GetMinimalTTL m) = Min (set (map (\<lambda>rr. unat (rr_Ttl rr)) (msg_records m)))"
proof -
  from assms obtain rr rrs where rec: "msg_records m = rr # rrs"
    by (cases "msg_Answer m") (auto simp: msg_records_def)
  show ?thesis
    by (simp add: GetMinimalTTL_def rec min_ttl_list_unat)
qed

lemma ucast_32_64_uint: "uint (ucast (t :: 32 word) :: 64 word) = uint t"
  by (rule uint_up_ucast) (simp add: is_up)

lemma Second_mult:
  fixes t :: "32 word"
  assumes "t \<le> maxTTL"
  shows "sint (ucast t * time_Second :: 64 word) = int (unat t) * 1000000000"
proof -
  have le: "uint t \<le> 604800" using assms by (simp add: word_le_def maxTTL_def)
  have lo: "0 \<le> uint t * 1000000000" by simp
  have hi: "uint t * 1000000000 < 2 ^ 63" using le by simp
  have neg: "(- (2 ^ 63) :: int) \<le> 0" by simp
  have lo': "- (2 ^ 63) \<le> uint t * 1000000000" using neg lo by (rule order_trans)
  have u: "uint (ucast t :: 64 word) = uint t" by (rule ucast_32_64_uint)
  have "uint (ucast t * time_Second :: 64 word) = (uint t * 1000000000) mod 2 ^ 64"
    by (simp add: uint_word_ariths time_Second_def u)
  also have "\<dots> = uint t * 1000000000"
    using lo hi by (intro mod_pos_pos_trivial) auto
  finally have eq: "uint (ucast t * time_Second :: 64 word) = uint t * 1000000000" .
  have "sint (ucast t * time_Second :: 64 word) = signed_take_bit 63 (uint (ucast t * time_Second :: 64 word))"
    by (simp add: sint_uint)
  also have "\<dots> = uint t * 1000000000"
    unfolding eq using lo' hi by (rule signed_take_bit_int_eq_self)
  finally show ?thesis by simp
qed

lemma capped_ttl:
  fixes g :: "32 word"
  shows "(if g > maxTTL then maxTTL else g) \<le> maxTTL"
    and "unat (if g > maxTTL then maxTTL else g) = min (unat g) 604800"
  by (auto simp: maxTTL_def word_less_nat_alt word_le_nat_alt min_def)

lemma capped_ttl_zero:
  fixes g :: "32 word"
  shows "((if g > maxTTL then maxTTL else g) = 0) = (g = 0)"
  by (auto simp: maxTTL_def)

lemma Second_mult_nonpos:
  fixes t :: "32 word"
  assumes "t \<le> maxTTL"
  shows "(sint (ucast t * time_Second :: 64 word) \<le> 0) = (t = 0)"
proof -
  have nn: "0 \<le> uint t" by simp
  have "(sint (ucast t * time_Second :: 64 word) \<le> 0) = (uint t * 1000000000 \<le> 0)"
    using Second_mult [OF assms] by simp
  also have "\<dots> = (uint t = 0)"
    using nn by (auto simp add: mult_le_0_iff)
  also have "\<dots> = (t = 0)"
    by (rule uint_0_iff)
  finally show ?thesis .
qed

lemma Exec_stores:
  assumes r: "R qCtx = Some p"
      and ok: "msg_Rcode (msgs w p) = RcodeSuccess" "\<not> msg_Truncated (msgs w p)"
          "msg_Answer (msgs w p) \<noteq> []"
      and st: "cache_Store env ctx (d_key d) p
                 (ucast (if GetMinimalTTL (msgs w p) > maxTTL then maxTTL
                         else GetMinimalTTL (msgs w p)) * time_Second)
                 (backend w) (msgs w) = (err, b', h')"
  shows "deferCacheStore_Exec env d ctx qCtx w =
           (None,
            w\<lparr>backend := b', msgs := h',
              calls := calls w @ [StoreCall (d_key d) p
                 (ucast (if GetMinimalTTL (msgs w p) > maxTTL then maxTTL
                         else GetMinimalTTL (msgs w p)) * time_Second)],
              logs := logs w @ (case err of
                                  None \<Rightarrow> []
                                | Some e \<Rightarrow> [(WarnLevel, ''failed to cache the data'', Some e)])\<rparr>)"
  using r ok st
  by (cases err)
     (simp_all add: deferCacheStore_Exec_def deferCacheStore_exec_def callStore_def logWarn_def Let_def)

lemma Exec_skips:
  assumes "\<not> (\<exists>p. R qCtx = Some p \<and> msg_Rcode (msgs w p) = RcodeSuccess
                \<and> \<not> msg_Truncated (msgs w p) \<and> msg_Answer (msgs w p) \<noteq> [])"
  shows "deferCacheStore_Exec env d ctx qCtx w = (None, w)"
  using assms
  by (auto simp add: deferCacheStore_Exec_def deferCacheStore_exec_def split: option.splits)

lemma exec_calls:
  "calls (snd (deferCacheStore_exec env d ctx qCtx w)) =
     calls w @ (case R qCtx of
                  None \<Rightarrow> []
                | Some p \<Rightarrow>
                    if msg_Rcode (msgs w p) = RcodeSuccess \<and> \<not> msg_Truncated (msgs w p)
                       \<and> msg_Answer (msgs w p) \<noteq> []
                    then [StoreCall (d_key d) p
                            (ucast (if GetMinimalTTL (msgs w p) > maxTTL then maxTTL
                                    else GetMinimalTTL (msgs w p)) * time_Second)]
                    else [])"
  by (simp add: deferCacheStore_exec_def callStore_def Let_def split: option.splits prod.splits)

lemma Exec_calls:
  "calls (snd (deferCacheStore_Exec env d ctx qCtx w)) = calls (snd (deferCacheStore_exec env d ctx qCtx w))"
  by (simp add: deferCacheStore_Exec_def logWarn_def split: option.splits prod.splits)

lemma Exec_specStore:
  assumes "cache_Store env = specStore"
  shows "backend (snd (deferCacheStore_Exec env d ctx qCtx w)) =
           (case R qCtx of
              None \<Rightarrow> backend w
            | Some p \<Rightarrow>
                if msg_Rcode (msgs w p) = RcodeSuccess \<and> \<not> msg_Truncated (msgs w p)
                   \<and> msg_Answer (msgs w p) \<noteq> [] \<and> GetMinimalTTL (msgs w p) \<noteq> 0
                then (backend w)(d_key d \<mapsto>
                       (msgs w p,
                        ucast (if GetMinimalTTL (msgs w p) > maxTTL then maxTTL
                               else GetMinimalTTL (msgs w p)) * time_Second))
                else backend w)"
proof (cases "R qCtx")
  case None
  then show ?thesis by (simp add: Exec_skips)
next
  case (Some p)
  let ?t = "if GetMinimalTTL (msgs w p) > maxTTL then maxTTL else GetMinimalTTL (msgs w p)"
  show ?thesis
  proof (cases "msg_Rcode (msgs w p) = RcodeSuccess \<and> \<not> msg_Truncated (msgs w p)
                   \<and> msg_Answer (msgs w p) \<noteq> []")
    case False
    then have "deferCacheStore_Exec env d ctx qCtx w = (None, w)"
      using Some by (intro Exec_skips) auto
    with False Some show ?thesis by auto
  next
    case True
    have z: "(sint (ucast ?t * time_Second :: 64 word) \<le> 0) = (GetMinimalTTL (msgs w p) = 0)"
      using Second_mult_nonpos [OF capped_ttl(1) [of "GetMinimalTTL (msgs w p)"]]
        capped_ttl_zero [of "GetMinimalTTL (msgs w p)"] by simp
    obtain err b' h' where st: "cache_Store env ctx (d_key d) p (ucast ?t * time_Second)
        (backend w) (msgs w) = (err, b', h')"
      by (cases "cache_Store env ctx (d_key d) p (ucast ?t * time_Second) (backend w) (msgs w)")
    then have b': "b' = (if GetMinimalTTL (msgs w p) = 0 then backend w
                        else (backend w)(d_key d \<mapsto> (msgs w p, ucast ?t * time_Second)))"
      using z by (auto simp add: assms specStore_def split: if_splits)
    show ?thesis
      using True Some b' Exec_stores [OF Some _ _ _ st] by simp
  qed
qed

section \<open>The cache plugin: what is stored, and with which TTL\<close>

text \<open>
  Claim C1, as amended. For every query context, the deferred store action
  \<open>deferCacheStore.Exec\<close> calls the backend's \<open>Store\<close> if and only if the final response is
  non-nil, has the success response code, is not truncated and carries at least one answer
  record. It then calls it once, with the action's key, the pointer to the response and the
  capped minimal TTL, and leaves the backend and the message store as that call returns
  them; in every other case it returns nil and changes nothing. Whether an entry is held
  afterwards is the backend's part: under the spec's contract for \<open>Store\<close> (\<open>specStore\<close>:
  a TTL that is not positive is a no-op), the backend holds the response under the key
  exactly when, besides the four conditions, the minimal TTL of the response is not zero,
  and is unchanged otherwise.
\<close>

theorem deferred_store_condition:
  "(\<forall>p. R qCtx = Some p \<and> msg_Rcode (msgs w p) = RcodeSuccess \<and> \<not> msg_Truncated (msgs w p)
          \<and> 1 \<le> length (msg_Answer (msgs w p)) \<longrightarrow>
      (\<exists>dur err b' h'.
          dur = ucast (if GetMinimalTTL (msgs w p) > maxTTL then maxTTL
                       else GetMinimalTTL (msgs w p)) * time_Second
        \<and> cache_Store env ctx (d_key d) p dur (backend w) (msgs w) = (err, b', h')
        \<and> deferCacheStore_Exec env d ctx qCtx w =
            (None,
             w\<lparr>backend := b', msgs := h',
               calls := calls w @ [StoreCall (d_key d) p dur],
               logs := logs w @ (case err of
                                   None \<Rightarrow> []
                                 | Some e \<Rightarrow> [(WarnLevel, ''failed to cache the data'', Some e)])\<rparr>)))
   \<and> (\<not> (\<exists>p. R qCtx = Some p \<and> msg_Rcode (msgs w p) = RcodeSuccess \<and> \<not> msg_Truncated (msgs w p)
              \<and> 1 \<le> length (msg_Answer (msgs w p)))
        \<longrightarrow> deferCacheStore_Exec env d ctx qCtx w = (None, w))
   \<and> ((\<exists>v ttl. calls (snd (deferCacheStore_Exec env d ctx qCtx w)) = calls w @ [StoreCall (d_key d) v ttl])
        = (\<exists>p. R qCtx = Some p \<and> msg_Rcode (msgs w p) = RcodeSuccess \<and> \<not> msg_Truncated (msgs w p)
              \<and> 1 \<le> length (msg_Answer (msgs w p))))
   \<and> (cache_Store senv = specStore \<longrightarrow>
        backend (snd (deferCacheStore_Exec senv d ctx qCtx sw)) =
          (case R qCtx of
             None \<Rightarrow> backend sw
           | Some p \<Rightarrow>
               if msg_Rcode (msgs sw p) = RcodeSuccess \<and> \<not> msg_Truncated (msgs sw p)
                  \<and> 1 \<le> length (msg_Answer (msgs sw p)) \<and> GetMinimalTTL (msgs sw p) \<noteq> 0
               then (backend sw)(d_key d \<mapsto>
                      (msgs sw p,
                       ucast (if GetMinimalTTL (msgs sw p) > maxTTL then maxTTL
                              else GetMinimalTTL (msgs sw p)) * time_Second))
               else backend sw))"
proof -
  have len: "\<And>m. (1 \<le> length (msg_Answer m)) = (msg_Answer m \<noteq> [])"
    by (simp add: Suc_le_eq)
  have a: "\<exists>dur err b' h'.
          dur = ucast (if GetMinimalTTL (msgs w p) > maxTTL then maxTTL
                       else GetMinimalTTL (msgs w p)) * time_Second
        \<and> cache_Store env ctx (d_key d) p dur (backend w) (msgs w) = (err, b', h')
        \<and> deferCacheStore_Exec env d ctx qCtx w =
            (None,
             w\<lparr>backend := b', msgs := h',
               calls := calls w @ [StoreCall (d_key d) p dur],
               logs := logs w @ (case err of
                                   None \<Rightarrow> []
                                 | Some e \<Rightarrow> [(WarnLevel, ''failed to cache the data'', Some e)])\<rparr>)"
    if h: "R qCtx = Some p \<and> msg_Rcode (msgs w p) = RcodeSuccess \<and> \<not> msg_Truncated (msgs w p)
          \<and> msg_Answer (msgs w p) \<noteq> []" for p
  proof -
    let ?dur = "ucast (if GetMinimalTTL (msgs w p) > maxTTL then maxTTL
                       else GetMinimalTTL (msgs w p)) * time_Second :: Duration"
    obtain err b' h' where st: "cache_Store env ctx (d_key d) p ?dur (backend w) (msgs w) = (err, b', h')"
      by (cases "cache_Store env ctx (d_key d) p ?dur (backend w) (msgs w)")
    from h have r: "R qCtx = Some p" and ok: "msg_Rcode (msgs w p) = RcodeSuccess"
        "\<not> msg_Truncated (msgs w p)" "msg_Answer (msgs w p) \<noteq> []"
      by simp_all
    from Exec_stores [OF r ok st] st show ?thesis by blast
  qed
  have b: "deferCacheStore_Exec env d ctx qCtx w = (None, w)"
    if "\<not> (\<exists>p. R qCtx = Some p \<and> msg_Rcode (msgs w p) = RcodeSuccess \<and> \<not> msg_Truncated (msgs w p)
              \<and> msg_Answer (msgs w p) \<noteq> [])"
    using that by (rule Exec_skips)
  have c: "(\<exists>v ttl. calls (snd (deferCacheStore_Exec env d ctx qCtx w)) = calls w @ [StoreCall (d_key d) v ttl])
        = (\<exists>p. R qCtx = Some p \<and> msg_Rcode (msgs w p) = RcodeSuccess \<and> \<not> msg_Truncated (msgs w p)
              \<and> msg_Answer (msgs w p) \<noteq> [])"
    by (auto simp add: Exec_calls exec_calls split: option.splits)
  have e: "backend (snd (deferCacheStore_Exec senv d ctx qCtx sw)) =
          (case R qCtx of
             None \<Rightarrow> backend sw
           | Some p \<Rightarrow>
               if msg_Rcode (msgs sw p) = RcodeSuccess \<and> \<not> msg_Truncated (msgs sw p)
                  \<and> msg_Answer (msgs sw p) \<noteq> [] \<and> GetMinimalTTL (msgs sw p) \<noteq> 0
               then (backend sw)(d_key d \<mapsto>
                      (msgs sw p,
                       ucast (if GetMinimalTTL (msgs sw p) > maxTTL then maxTTL
                              else GetMinimalTTL (msgs sw p)) * time_Second))
               else backend sw)"
    if "cache_Store senv = specStore"
    using that by (rule Exec_specStore)
  show ?thesis
    unfolding len using a b c e by blast
qed

text \<open>
  Claim C1 as amended, at concrete inputs: a truncated response is not handed to \<open>Store\<close>;
  the same response without the truncation flag is, for 60 seconds, and a backend under the
  spec's contract then holds it.
\<close>

theorem deferred_store_condition_witness:
  "deferCacheStore_Exec (stubEnv (Inr ''k'') (None, 0, False, None) None) (newDeferStore ''k'') liveCtx
      (exampleContext (Some 0)) (emptyWorld ((exampleResponse [60, 300])\<lparr>msg_Truncated := True\<rparr>))
     = (None, emptyWorld ((exampleResponse [60, 300])\<lparr>msg_Truncated := True\<rparr>))
   \<and> deferCacheStore_Exec (stubEnv (Inr ''k'') (None, 0, False, None) None) (newDeferStore ''k'') liveCtx
      (exampleContext (Some 0)) (emptyWorld (exampleResponse [60, 300]))
     = (None, (emptyWorld (exampleResponse [60, 300]))
               \<lparr>backend := [(''k'', 0, 60000000000)], calls := [StoreCall ''k'' 0 60000000000]\<rparr>)
   \<and> backend (snd (deferCacheStore_Exec (specEnv (Inr ''k'') (None, 0, False, None))
        (newDeferStore ''k'') liveCtx (exampleContext (Some 0)) (specWorld (exampleResponse [60, 300])))) ''k''
     = Some (exampleResponse [60, 300], 60000000000)"
proof -
  let ?env = "stubEnv (Inr ''k'') (None, 0, False, None) None"
  let ?senv = "specEnv (Inr ''k'') (None, 0, False, None)"
  let ?d = "newDeferStore ''k''"
  let ?q = "exampleContext (Some 0) :: msgPtr Context"
  let ?w1 = "emptyWorld ((exampleResponse [60, 300])\<lparr>msg_Truncated := True\<rparr>)"
  let ?w2 = "emptyWorld (exampleResponse [60, 300])"
  let ?sw = "specWorld (exampleResponse [60, 300])"
  note t1 = deferred_store_condition [where env = ?env and d = ?d and ctx = liveCtx and qCtx = ?q
      and w = ?w1 and senv = ?senv and sw = ?sw]
  note t2 = deferred_store_condition [where env = ?env and d = ?d and ctx = liveCtx and qCtx = ?q
      and w = ?w2 and senv = ?senv and sw = ?sw]
  have h1: "\<not> (\<exists>p. R ?q = Some p \<and> msg_Rcode (msgs ?w1 p) = RcodeSuccess \<and> \<not> msg_Truncated (msgs ?w1 p)
              \<and> 1 \<le> length (msg_Answer (msgs ?w1 p)))"
    by (simp add: emptyWorld_def)
  have a: "deferCacheStore_Exec ?env ?d liveCtx ?q ?w1 = (None, ?w1)"
    using t1 h1 by blast
  have h2: "R ?q = Some 0 \<and> msg_Rcode (msgs ?w2 0) = RcodeSuccess \<and> \<not> msg_Truncated (msgs ?w2 0)
          \<and> 1 \<le> length (msg_Answer (msgs ?w2 0))"
    by (simp add: cache_defs fixture_defs)
  from t2 h2 obtain dur err b' h' where
      dur: "dur = ucast (if GetMinimalTTL (msgs ?w2 0) > maxTTL then maxTTL
                       else GetMinimalTTL (msgs ?w2 0)) * time_Second"
    and st: "cache_Store ?env liveCtx (d_key ?d) 0 dur (backend ?w2) (msgs ?w2) = (err, b', h')"
    and ex: "deferCacheStore_Exec ?env ?d liveCtx ?q ?w2 =
            (None,
             ?w2\<lparr>backend := b', msgs := h',
               calls := calls ?w2 @ [StoreCall (d_key ?d) 0 dur],
               logs := logs ?w2 @ (case err of
                                   None \<Rightarrow> []
                                 | Some e \<Rightarrow> [(WarnLevel, ''failed to cache the data'', Some e)])\<rparr>)"
    by blast
  have dv: "dur = 60000000000"
    unfolding dur by (simp add: cache_defs fixture_defs)
  have b: "deferCacheStore_Exec ?env ?d liveCtx ?q ?w2
     = (None, ?w2\<lparr>backend := [(''k'', 0, 60000000000)], calls := [StoreCall ''k'' 0 60000000000]\<rparr>)"
    using ex st unfolding dv by (auto simp add: stubEnv_def emptyWorld_def newDeferStore_def)
  have h3: "cache_Store ?senv = specStore" by (simp add: specEnv_def)
  have "backend (snd (deferCacheStore_Exec ?senv ?d liveCtx ?q ?sw)) =
          (case R ?q of
             None \<Rightarrow> backend ?sw
           | Some p \<Rightarrow>
               if msg_Rcode (msgs ?sw p) = RcodeSuccess \<and> \<not> msg_Truncated (msgs ?sw p)
                  \<and> 1 \<le> length (msg_Answer (msgs ?sw p)) \<and> GetMinimalTTL (msgs ?sw p) \<noteq> 0
               then (backend ?sw)(d_key ?d \<mapsto>
                      (msgs ?sw p,
                       ucast (if GetMinimalTTL (msgs ?sw p) > maxTTL then maxTTL
                              else GetMinimalTTL (msgs ?sw p)) * time_Second))
               else backend ?sw)"
    using t1 h3 by blast
  then have c: "backend (snd (deferCacheStore_Exec ?senv ?d liveCtx ?q ?sw)) ''k''
     = Some (exampleResponse [60, 300], 60000000000)"
    by (simp add: cache_defs fixture_defs)
  show ?thesis using a b c by simp
qed

text \<open>
  Claim C1 as stated fails at a response that meets the four conditions and whose only
  record has TTL 0: \<open>Store\<close> is called with a TTL of zero, which a backend under the spec's
  contract ignores, and no entry is stored.
\<close>

theorem zero_ttl_response_not_stored:
  "msg_Rcode (exampleResponse [0]) = RcodeSuccess \<and> \<not> msg_Truncated (exampleResponse [0])
   \<and> length (msg_Answer (exampleResponse [0])) = 1
   \<and> deferCacheStore_Exec (specEnv (Inr ''k'') (None, 0, False, None)) (newDeferStore ''k'') liveCtx
        (exampleContext (Some 0)) (specWorld (exampleResponse [0]))
     = (None, (specWorld (exampleResponse [0]))\<lparr>calls := [StoreCall ''k'' 0 0]\<rparr>)
   \<and> backend (snd (deferCacheStore_Exec (specEnv (Inr ''k'') (None, 0, False, None))
        (newDeferStore ''k'') liveCtx (exampleContext (Some 0)) (specWorld (exampleResponse [0])))) ''k''
     = None"
  by (simp add: cache_defs fixture_defs specStore_def)

text \<open>
  Claim C2. For every response the deferred store action stores, the duration passed to
  the backend is, in nanoseconds and without wrap-around, the minimum TTL across the
  response's records, or 604800 seconds when that minimum is larger; so a stored TTL never
  exceeds 604800 seconds.
\<close>

theorem stored_ttl_capped:
  assumes "calls (snd (deferCacheStore_Exec env d ctx qCtx w)) = calls w @ [StoreCall k v dur]"
  shows "R qCtx = Some v
       \<and> sint dur = 1000000000 * int (min (Min (set (map (\<lambda>rr. unat (rr_Ttl rr)) (msg_records (msgs w v))))) 604800)
       \<and> sint dur \<le> 1000000000 * 604800"
proof -
  let ?t = "\<lambda>r. if GetMinimalTTL r > maxTTL then maxTTL else GetMinimalTTL r"
  from assms have st: "R qCtx = Some v \<and> msg_Answer (msgs w v) \<noteq> []
      \<and> dur = ucast (?t (msgs w v)) * time_Second"
    by (auto simp add: Exec_calls exec_calls split: option.splits if_splits)
  then have "sint dur = int (unat (?t (msgs w v))) * 1000000000"
    using Second_mult [OF capped_ttl(1) [of "GetMinimalTTL (msgs w v)"]] by simp
  also have "\<dots> = int (min (unat (GetMinimalTTL (msgs w v))) 604800) * 1000000000"
    by (simp only: capped_ttl(2))
  finally have "sint dur = 1000000000 * int (min (Min (set (map (\<lambda>rr. unat (rr_Ttl rr)) (msg_records (msgs w v))))) 604800)"
    using st by (simp add: GetMinimalTTL_Min)
  then show ?thesis using st by simp
qed

text \<open>Claim C2 at a response whose smallest TTL, 700000 seconds, is above the cap.\<close>

theorem stored_ttl_capped_witness:
  "calls (snd (deferCacheStore_Exec (stubEnv (Inr ''k'') (None, 0, False, None) None) (newDeferStore ''k'') liveCtx
      (exampleContext (Some 0)) (emptyWorld (exampleResponse [1000000, 700000]))))
     = calls (emptyWorld (exampleResponse [1000000, 700000])) @ [StoreCall ''k'' 0 604800000000000]
   \<and> sint (604800000000000 :: Duration)
       = 1000000000 * int (min (Min (set (map (\<lambda>rr. unat (rr_Ttl rr))
            (msg_records (msgs (emptyWorld (exampleResponse [1000000, 700000])) 0))))) 604800)"
proof -
  let ?env = "stubEnv (Inr ''k'') (None, 0, False, None) None"
  let ?q = "exampleContext (Some 0) :: msgPtr Context"
  let ?w = "emptyWorld (exampleResponse [1000000, 700000])"
  have h: "calls (snd (deferCacheStore_Exec ?env (newDeferStore ''k'') liveCtx ?q ?w))
     = calls ?w @ [StoreCall ''k'' 0 604800000000000]"
    by (simp add: cache_defs fixture_defs)
  from stored_ttl_capped [OF h] h show ?thesis by simp
qed

lemma Duration_secs_mod:
  "uint (ucast (Duration_div ttl time_Second) :: 32 word) = (sint ttl sdiv 1000000000) mod 2 ^ 32"
proof -
  define k where "k = sint ttl sdiv 1000000000"
  have "uint (ucast (word_of_int k :: 64 word) :: 32 word) = take_bit 32 (take_bit 64 k)"
    by (simp add: unsigned_ucast_eq uint_word_of_int_eq)
  also have "\<dots> = take_bit 32 k" by simp
  finally show ?thesis
    by (simp add: Duration_div_def time_Second_def k_def take_bit_eq_mod)
qed

lemma Duration_secs:
  assumes "0 \<le> sint ttl" "sint ttl < 4294967296 * 1000000000"
  shows "uint (ucast (Duration_div ttl time_Second) :: 32 word) = sint ttl div 1000000000"
proof -
  have s: "sint ttl sdiv 1000000000 = sint ttl div 1000000000"
    using assms(1) by (simp add: signed_divide_int_def sgn_if)
  have lo: "0 \<le> sint ttl div 1000000000" using assms(1) by simp
  have hi: "sint ttl div 1000000000 < 2 ^ 32" using assms(2) by simp
  show ?thesis unfolding Duration_secs_mod s using lo hi by (intro mod_pos_pos_trivial)
qed

lemma searchAndReply_hit:
  assumes "GetMsgKey env (Q qCtx) = Inr key"
      and "cache_Get env ctx key (backend w) (msgs w) = ((Some p, ttl, ok, None), b', h')"
  shows "cachePlugin_searchAndReply env ctx qCtx w =
           ((key, True),
            qCtx\<lparr>qCtx_r := Some p, qCtx_status := ContextStatusResponded\<rparr>,
            w\<lparr>backend := b',
              msgs := h'(p := SetTTL ((h' p)\<lparr>msg_Id := msg_Id (Q qCtx)\<rparr>)
                                     (ucast (Duration_div ttl time_Second))),
              calls := calls w @ [GetCall key],
              logs := logs w @ [(DebugLevel, ''cache hit'', None)]\<rparr>)"
  using assms
  by (simp add: cachePlugin_searchAndReply_def callGet_def SetResponse_def logDebugMsg_def
      assignMsg_def Let_def)

section \<open>The cache plugin: hits and faults\<close>

text \<open>
  Claim C3, as amended. When the key derivation succeeds and the backend's \<open>Get\<close> returns
  a non-nil response without an error, \<open>cachePlugin.ExecES\<close> makes no copy: it overwrites
  in place, in the message \<open>Get\<close> returned, the ID with the query's ID and the TTL of every
  record of the answer, authority and additional sections with the remaining time-to-live
  the backend returned, in whole seconds as a uint32 (\<open>uint32(ttl/time.Second)\<close>); nothing
  else of that message and no other message changes. It sets that same message as the
  response of the context with status Responded and returns earlyStop = true and a nil
  error. The last two parts say what the conversion computes: the quotient truncated towards
  zero, modulo \<open>2^32\<close>, which is the number of whole seconds for a remaining time-to-live
  between zero and \<open>2^32\<close> seconds.
\<close>

theorem cache_hit_reply:
  assumes "GetMsgKey env (Q qCtx) = Inr key"
      and "cache_Get env ctx key (backend w) (msgs w) = ((Some p, ttl, ok, None), b', h')"
  shows "cachePlugin_ExecES env ctx qCtx w =
           ((True, None),
            qCtx\<lparr>qCtx_r := Some p, qCtx_status := ContextStatusResponded\<rparr>,
            w\<lparr>backend := b',
              msgs := h'(p := (h' p)
                 \<lparr>msg_Id := msg_Id (Q qCtx),
                  msg_Answer := map (\<lambda>rr. rr\<lparr>rr_Ttl := ucast (Duration_div ttl time_Second)\<rparr>)
                                    (msg_Answer (h' p)),
                  msg_Ns := map (\<lambda>rr. rr\<lparr>rr_Ttl := ucast (Duration_div ttl time_Second)\<rparr>)
                                (msg_Ns (h' p)),
                  msg_Extra := map (\<lambda>rr. rr\<lparr>rr_Ttl := ucast (Duration_div ttl time_Second)\<rparr>)
                                   (msg_Extra (h' p))\<rparr>),
              calls := calls w @ [GetCall key],
              logs := logs w @ [(DebugLevel, ''cache hit'', None)]\<rparr>)
         \<and> uint (ucast (Duration_div ttl time_Second) :: 32 word) = (sint ttl sdiv 1000000000) mod 2 ^ 32
         \<and> (0 \<le> sint ttl \<and> sint ttl < 4294967296 * 1000000000
              \<longrightarrow> uint (ucast (Duration_div ttl time_Second) :: 32 word) = sint ttl div 1000000000)"
proof -
  have run: "cachePlugin_ExecES env ctx qCtx w =
           ((True, None),
            qCtx\<lparr>qCtx_r := Some p, qCtx_status := ContextStatusResponded\<rparr>,
            w\<lparr>backend := b',
              msgs := h'(p := SetTTL ((h' p)\<lparr>msg_Id := msg_Id (Q qCtx)\<rparr>)
                                     (ucast (Duration_div ttl time_Second))),
              calls := calls w @ [GetCall key],
              logs := logs w @ [(DebugLevel, ''cache hit'', None)]\<rparr>)"
    by (simp add: cachePlugin_ExecES_def searchAndReply_hit [OF assms])
  have secs: "0 \<le> sint ttl \<and> sint ttl < 4294967296 * 1000000000
              \<longrightarrow> uint (ucast (Duration_div ttl time_Second) :: 32 word) = sint ttl div 1000000000"
    using Duration_secs by blast
  show ?thesis
    using run secs Duration_secs_mod [of ttl] by (simp add: SetTTL_def)
qed

text \<open>Claim C3 as amended, at a cached response with TTLs 60 and 300 and 42.5 seconds remaining.\<close>

theorem cache_hit_reply_witness:
  "cachePlugin_ExecES (stubEnv (Inr ''k'') (Some 0, 42500000000, True, None) None)
      liveCtx (exampleContext None) (emptyWorld (exampleResponse [60, 300])) =
     ((True, None),
      (exampleContext None)\<lparr>qCtx_r := Some 0, qCtx_status := ContextStatusResponded\<rparr>,
      \<lparr>backend = [],
       msgs = (\<lambda>p. exampleResponse [60, 300])
                (0 := exampleQuery\<lparr>msg_Answer := [exampleRR 42, exampleRR 42]\<rparr>),
       calls = [GetCall ''k''], logs = [(DebugLevel, ''cache hit'', None)]\<rparr>)"
proof -
  let ?env = "stubEnv (Inr ''k'') (Some 0, 42500000000, True, None) None"
  let ?q = "exampleContext None :: msgPtr Context"
  let ?w = "emptyWorld (exampleResponse [60, 300])"
  have k: "GetMsgKey ?env (Q ?q) = Inr ''k''"
    by (simp add: stubEnv_def)
  have g: "cache_Get ?env liveCtx ''k'' (backend ?w) (msgs ?w)
             = ((Some 0, 42500000000, True, None), backend ?w, msgs ?w)"
    by (simp add: stubEnv_def)
  have s: "(ucast (Duration_div 42500000000 time_Second) :: 32 word) = 42"
    by (simp add: Duration_div_def time_Second_def signed_divide_int_def)
  from cache_hit_reply [OF k g, THEN conjunct1] show ?thesis
    by (simp add: s emptyWorld_def exampleResponse_def exampleRR_def exampleQuery_def Q_def
        exampleContext_def)
qed

text \<open>
  Claim C3 as stated fails at a backend whose \<open>Get\<close> returns the pointer it keeps for the
  key: \<open>ExecES\<close> copies nothing, the response of the context is the backend's own message
  (address 0), and that message now carries the query's ID and the remaining TTL.
\<close>

theorem cache_hit_overwrites_cached_message:
  "msgs ((emptyWorld (exampleResponse [60, 300]))\<lparr>backend := [(''k'', 0, 300000000000)]\<rparr>) 0
     = exampleResponse [60, 300]
   \<and> cachePlugin_ExecES (stubEnv (Inr ''k'') (Some 0, 42500000000, True, None) None)
      liveCtx (exampleContext None)
      ((emptyWorld (exampleResponse [60, 300]))\<lparr>backend := [(''k'', 0, 300000000000)]\<rparr>) =
     ((True, None),
      (exampleContext None)\<lparr>qCtx_r := Some 0, qCtx_status := ContextStatusResponded\<rparr>,
      \<lparr>backend = [(''k'', 0, 300000000000)],
       msgs = (\<lambda>p. exampleResponse [60, 300])
                (0 := exampleQuery\<lparr>msg_Answer := [exampleRR 42, exampleRR 42]\<rparr>),
       calls = [GetCall ''k''], logs = [(DebugLevel, ''cache hit'', None)]\<rparr>)"
proof -
  have s: "(ucast (Duration_div 42500000000 1000000000) :: 32 word) = 42"
    by (simp add: Duration_div_def signed_divide_int_def)
  show ?thesis
    by (simp add: cache_defs fixture_defs Let_def s)
qed

lemma ExecES_no_error: "snd (fst (cachePlugin_ExecES env ctx qCtx w)) = None"
  by (simp add: cachePlugin_ExecES_def split: prod.splits)

lemma Exec_no_error: "fst (deferCacheStore_Exec env d ctx qCtx w) = None"
  by (simp add: deferCacheStore_Exec_def split: prod.splits option.splits)

lemma searchAndReply_key_fault:
  assumes "GetMsgKey env (Q qCtx) = Inl e"
  shows "cachePlugin_searchAndReply env ctx qCtx w =
           (('''', False), qCtx, w\<lparr>logs := logs w @ [(WarnLevel, ''unable to get msg key, skip it'', Some e)]\<rparr>)"
  using assms by (simp add: cachePlugin_searchAndReply_def logWarn_def Let_def)

lemma searchAndReply_get_fault:
  assumes "GetMsgKey env (Q qCtx) = Inr key"
      and "cache_Get env ctx key (backend w) (msgs w) = ((r, ttl, ok, Some e), b', h')"
  shows "cachePlugin_searchAndReply env ctx qCtx w =
           ((key, False), qCtx,
            w\<lparr>backend := b', msgs := h', calls := calls w @ [GetCall key],
              logs := logs w @ [(WarnLevel, ''unable to access cache, skip it'', Some e)]\<rparr>)"
  using assms by (simp add: cachePlugin_searchAndReply_def callGet_def logWarn_def Let_def)

text \<open>
  Claim C4. For every execution context and query context, \<open>cachePlugin.ExecES\<close> and
  \<open>deferCacheStore.Exec\<close> return a nil error. A key-derivation failure and a backend
  \<open>Get\<close> failure are logged at warn level, leave response and status untouched and do not
  stop the chain; a backend \<open>Store\<close> failure is logged at warn level and dropped.
\<close>

theorem cache_faults_absorbed:
  "snd (fst (cachePlugin_ExecES env ctx qCtx w)) = None
   \<and> fst (deferCacheStore_Exec env d ctx qCtx w) = None
   \<and> (\<forall>e. GetMsgKey env (Q qCtx) = Inl e \<longrightarrow>
         cachePlugin_ExecES env ctx qCtx w =
           ((False, None), qCtx,
            w\<lparr>logs := logs w @ [(WarnLevel, ''unable to get msg key, skip it'', Some e)]\<rparr>))
   \<and> (\<forall>key r ttl ok e b' h'. GetMsgKey env (Q qCtx) = Inr key
           \<and> cache_Get env ctx key (backend w) (msgs w) = ((r, ttl, ok, Some e), b', h') \<longrightarrow>
         fst (cachePlugin_ExecES env ctx qCtx w) = (False, None)
         \<and> R (fst (snd (cachePlugin_ExecES env ctx qCtx w))) = R qCtx
         \<and> qCtx_status (fst (snd (cachePlugin_ExecES env ctx qCtx w))) = qCtx_status qCtx
         \<and> snd (snd (cachePlugin_ExecES env ctx qCtx w)) =
             w\<lparr>backend := b', msgs := h', calls := calls w @ [GetCall key],
               logs := logs w @ [(WarnLevel, ''unable to access cache, skip it'', Some e)]\<rparr>)
   \<and> (\<forall>e w1. deferCacheStore_exec env d ctx qCtx w = (Some e, w1) \<longrightarrow>
         deferCacheStore_Exec env d ctx qCtx w =
           (None, w1\<lparr>logs := logs w1 @ [(WarnLevel, ''failed to cache the data'', Some e)]\<rparr>))"
proof (intro conjI allI impI)
  show "snd (fst (cachePlugin_ExecES env ctx qCtx w)) = None"
    by (rule ExecES_no_error)
  show "fst (deferCacheStore_Exec env d ctx qCtx w) = None"
    by (rule Exec_no_error)
next
  fix e assume "GetMsgKey env (Q qCtx) = Inl e"
  then show "cachePlugin_ExecES env ctx qCtx w =
           ((False, None), qCtx,
            w\<lparr>logs := logs w @ [(WarnLevel, ''unable to get msg key, skip it'', Some e)]\<rparr>)"
    by (simp add: cachePlugin_ExecES_def searchAndReply_key_fault)
next
  fix key r ttl ok e b' h'
  assume a: "GetMsgKey env (Q qCtx) = Inr key
           \<and> cache_Get env ctx key (backend w) (msgs w) = ((r, ttl, ok, Some e), b', h')"
  note sr = searchAndReply_get_fault [OF conjunct1 [OF a] conjunct2 [OF a]]
  show "fst (cachePlugin_ExecES env ctx qCtx w) = (False, None)"
    by (simp add: cachePlugin_ExecES_def sr)
  show "R (fst (snd (cachePlugin_ExecES env ctx qCtx w))) = R qCtx"
    by (simp add: cachePlugin_ExecES_def sr R_def DeferExec_def)
  show "qCtx_status (fst (snd (cachePlugin_ExecES env ctx qCtx w))) = qCtx_status qCtx"
    by (simp add: cachePlugin_ExecES_def sr DeferExec_def)
  show "snd (snd (cachePlugin_ExecES env ctx qCtx w)) =
             w\<lparr>backend := b', msgs := h', calls := calls w @ [GetCall key],
               logs := logs w @ [(WarnLevel, ''unable to access cache, skip it'', Some e)]\<rparr>"
    by (simp add: cachePlugin_ExecES_def sr)
next
  fix e w1 assume "deferCacheStore_exec env d ctx qCtx w = (Some e, w1)"
  then show "deferCacheStore_Exec env d ctx qCtx w =
           (None, w1\<lparr>logs := logs w1 @ [(WarnLevel, ''failed to cache the data'', Some e)]\<rparr>)"
    by (simp add: deferCacheStore_Exec_def logWarn_def)
qed

text \<open>Claim C4 at a failing key derivation, a failing \<open>Get\<close> and a failing \<open>Store\<close>.\<close>

theorem cache_faults_absorbed_witness:
  "cachePlugin_ExecES (stubEnv (Inl (OtherError ''pack'')) (None, 0, False, None) None)
       liveCtx (exampleContext None) (emptyWorld (exampleResponse [60])) =
     ((False, None), exampleContext None,
      (emptyWorld (exampleResponse [60]))\<lparr>logs := [(WarnLevel, ''unable to get msg key, skip it'', Some (OtherError ''pack''))]\<rparr>)
   \<and> snd (snd (cachePlugin_ExecES (stubEnv (Inr ''k'') (None, 0, False, Some (OtherError ''io''))  None)
       liveCtx (exampleContext None) (emptyWorld (exampleResponse [60])))) =
      (emptyWorld (exampleResponse [60]))\<lparr>calls := [GetCall ''k''],
        logs := [(WarnLevel, ''unable to access cache, skip it'', Some (OtherError ''io''))]\<rparr>
   \<and> deferCacheStore_Exec (stubEnv (Inr ''k'') (None, 0, False, None) (Some (OtherError ''full'')))
       (newDeferStore ''k'') liveCtx (exampleContext (Some 0)) (emptyWorld (exampleResponse [60])) =
     (None, \<lparr>backend = [(''k'', 0, 60000000000)],
             msgs = msgs (emptyWorld (exampleResponse [60])),
             calls = [StoreCall ''k'' 0 60000000000],
             logs = [(WarnLevel, ''failed to cache the data'', Some (OtherError ''full''))]\<rparr>)"
proof -
  let ?e1 = "stubEnv (Inl (OtherError ''pack'')) (None, 0, False, None) None"
  let ?e2 = "stubEnv (Inr ''k'') (None, 0, False, Some (OtherError ''io'')) None"
  let ?e3 = "stubEnv (Inr ''k'') (None, 0, False, None) (Some (OtherError ''full''))"
  let ?q0 = "exampleContext None :: msgPtr Context"
  let ?q3 = "exampleContext (Some 0) :: msgPtr Context"
  let ?w0 = "emptyWorld (exampleResponse [60])"
  let ?w3 = "\<lparr>backend = [(''k'', 0, 60000000000)], msgs = msgs ?w0,
             calls = [StoreCall ''k'' 0 60000000000], logs = []\<rparr>"
  have h1: "GetMsgKey ?e1 (Q ?q0) = Inl (OtherError ''pack'')"
    by (simp add: stubEnv_def)
  have h2: "GetMsgKey ?e2 (Q ?q0) = Inr ''k''
      \<and> cache_Get ?e2 liveCtx ''k'' (backend ?w0) (msgs ?w0)
          = ((None, 0, False, Some (OtherError ''io'')), backend ?w0, msgs ?w0)"
    by (simp add: stubEnv_def)
  have h3: "deferCacheStore_exec ?e3 (newDeferStore ''k'') liveCtx ?q3 ?w0
      = (Some (OtherError ''full''), ?w3)"
    by (simp add: cache_defs fixture_defs)
  note t1 = cache_faults_absorbed [of ?e1 liveCtx ?q0 ?w0]
  note t2 = cache_faults_absorbed [of ?e2 liveCtx ?q0 ?w0]
  note t3 = cache_faults_absorbed [of ?e3 liveCtx ?q3 ?w0 "newDeferStore ''k''"]
  note a = t1 [THEN conjunct2, THEN conjunct2, THEN conjunct1, rule_format, OF h1]
  note b = t2 [THEN conjunct2, THEN conjunct2, THEN conjunct2, THEN conjunct1, rule_format, OF h2]
  note c = t3 [THEN conjunct2, THEN conjunct2, THEN conjunct2, THEN conjunct2, rule_format, OF h3]
  show ?thesis using a b c by (simp add: emptyWorld_def)
qed

text \<open>
  Claim C10. When the key derivation succeeds (with a key that is not empty, as
  \<open>ExecES\<close> tests it) and the backend's \<open>Get\<close> returns a non-nil error, \<open>cachePlugin.ExecES\<close>
  still registers the deferred store action for that key: the read-side fault does not
  suppress the later attempt to store the final response.
\<close>

theorem get_fault_keeps_deferred_store:
  assumes "GetMsgKey env (Q qCtx) = Inr key"
      and "key \<noteq> []"
      and "cache_Get env ctx key (backend w) (msgs w) = ((r, ttl, ok, Some e), b', h')"
  shows "cachePlugin_ExecES env ctx qCtx w =
           ((False, None),
            qCtx\<lparr>qCtx_deferrable := qCtx_deferrable qCtx @ [newDeferStore key]\<rparr>,
            w\<lparr>backend := b', msgs := h', calls := calls w @ [GetCall key],
              logs := logs w @ [(WarnLevel, ''unable to access cache, skip it'', Some e)]\<rparr>)"
  using assms(2)
  by (simp add: cachePlugin_ExecES_def searchAndReply_get_fault [OF assms(1) assms(3)] DeferExec_def)

text \<open>Claim C10 at a backend whose \<open>Get\<close> fails.\<close>

theorem get_fault_keeps_deferred_store_witness:
  "cachePlugin_ExecES (stubEnv (Inr ''k'') (None, 0, False, Some (OtherError ''io'')) None)
       liveCtx (exampleContext None) (emptyWorld (exampleResponse [60])) =
     ((False, None),
      (exampleContext None)\<lparr>qCtx_deferrable := [\<lparr>d_key = ''k''\<rparr>]\<rparr>,
      (emptyWorld (exampleResponse [60]))\<lparr>calls := [GetCall ''k''],
        logs := [(WarnLevel, ''unable to access cache, skip it'', Some (OtherError ''io''))]\<rparr>)"
proof -
  let ?e2 = "stubEnv (Inr ''k'') (None, 0, False, Some (OtherError ''io'')) None"
  let ?q0 = "exampleContext None :: msgPtr Context"
  let ?w0 = "emptyWorld (exampleResponse [60])"
  have h1: "GetMsgKey ?e2 (Q ?q0) = Inr ''k''"
    by (simp add: stubEnv_def)
  have h2: "''k'' \<noteq> []" by simp
  have h3: "cache_Get ?e2 liveCtx ''k'' (backend ?w0) (msgs ?w0)
          = ((None, 0, False, Some (OtherError ''io'')), backend ?w0, msgs ?w0)"
    by (simp add: stubEnv_def)
  from get_fault_keeps_deferred_store [OF h1 h2 h3] show ?thesis
    by (simp add: emptyWorld_def exampleContext_def newDeferStore_def)
qed

section \<open>The cache plugin: connector mode against executable mode\<close>







text \<open>
  Why the agreement of the two modes is stated for a remainder that returns no error, or a
  chain whose deferred actions are not run after an error: \<open>Connect\<close> returns the error
  of the remainder before its store (\<open>if err != nil { return err }\<close>), while the action
  \<open>ExecES\<close> registered is one of the deferred actions of the context. Where those are run
  after a failed remainder that left a storable response, the executable mode stores it and
  the connector mode does not; where they are not run, neither mode stores.
\<close>

lemma failed_remainder_store_follows_deferred_run:
  "backend (snd (snd (run_ExecES_mode True (stubEnv (Inr ''k'') (None, 0, False, None) None) liveCtx
       (exampleContext None) (withDeferExec failingRest) (emptyWorld exampleQuery))))
     = [(''k'', 1, 60000000000)]
   \<and> backend (snd (snd (run_Connect_mode True (stubEnv (Inr ''k'') (None, 0, False, None) None) liveCtx
       (exampleContext None) (withDeferExec failingRest) (emptyWorld exampleQuery))))
     = []
   \<and> backend (snd (snd (run_ExecES_mode False (stubEnv (Inr ''k'') (None, 0, False, None) None) liveCtx
       (exampleContext None) (withDeferExec failingRest) (emptyWorld exampleQuery))))
     = []
   \<and> backend (snd (snd (run_Connect_mode False (stubEnv (Inr ''k'') (None, 0, False, None) None) liveCtx
       (exampleContext None) (withDeferExec failingRest) (emptyWorld exampleQuery))))
     = []
   \<and> fst (run_Connect_mode True (stubEnv (Inr ''k'') (None, 0, False, None) None) liveCtx
       (exampleContext None) (withDeferExec failingRest) (emptyWorld exampleQuery))
     = Some (OtherError ''upstream'')"
  by (simp add: run_ExecES_mode_def run_Connect_mode_def afterChain_def withDeferExec_def
      failingRest_def cache_defs fixture_defs Let_def)




section \<open>The plugin wrapper: cancellation, error attribution, adaptation\<close>

lemma ExecES_cancelled:
  assumes "ctx_Err ctx = Some e"
  shows "PluginWrapper_ExecES w ctx qCtx hw = ((False, Some e), qCtx, logDebug w qCtx hw)"
  using assms by (simp add: PluginWrapper_ExecES_def Let_def)

lemma Match_cancelled:
  assumes "ctx_Err ctx = Some e"
  shows "PluginWrapper_Match w ctx qCtx hw = ((False, Some e), qCtx, logDebug w qCtx hw)"
  using assms by (simp add: PluginWrapper_Match_def Let_def)

lemma Connect_cancelled:
  assumes "ctx_Err ctx = Some e"
  shows "PluginWrapper_Connect w ctx qCtx pipeCtx hw = (Some e, qCtx, logDebug w qCtx hw)"
  using assms by (simp add: PluginWrapper_Connect_def Let_def)

lemma Shutdown_dispatch:
  assumes "w_s w = Some s"
  shows "PluginWrapper_Shutdown w hw =
           (fst (s (hw_state hw)),
            hw\<lparr>hw_events := hw_events hw @ [Invoked M_Shutdown], hw_state := snd (s (hw_state hw))\<rparr>)"
  using assms by (simp add: PluginWrapper_Shutdown_def invoked_def split: prod.splits)

text \<open>
  Claim C5, as amended. On an already-cancelled execution context, \<open>ExecES\<close>, \<open>Match\<close> and
  \<open>Connect\<close> of the wrapper return the cancellation error unwrapped, after the debug event
  and without invoking the underlying plugin (no method is recorded as invoked; the query
  context and the plugin's state are unchanged). \<open>Shutdown\<close> takes no execution context: it
  checks no cancellation and always dispatches to the \<open>Shutdown\<close> of a plugin that is a
  Service.
\<close>

theorem cancelled_dispatch:
  assumes "ctx_Err ctx = Some e"
  shows "PluginWrapper_ExecES w ctx qCtx hw =
           ((False, Some e), qCtx, hw\<lparr>hw_events := hw_events hw @ [DebugEvent ''exec plugin'' (p_Tag (w_p w))]\<rparr>)
       \<and> PluginWrapper_Match w ctx qCtx hw =
           ((False, Some e), qCtx, hw\<lparr>hw_events := hw_events hw @ [DebugEvent ''exec plugin'' (p_Tag (w_p w))]\<rparr>)
       \<and> PluginWrapper_Connect w ctx qCtx pipeCtx hw =
           (Some e, qCtx, hw\<lparr>hw_events := hw_events hw @ [DebugEvent ''exec plugin'' (p_Tag (w_p w))]\<rparr>)
       \<and> (\<forall>s. w_s w = Some s \<longrightarrow>
            PluginWrapper_Shutdown w hw =
              (fst (s (hw_state hw)),
               hw\<lparr>hw_events := hw_events hw @ [Invoked M_Shutdown], hw_state := snd (s (hw_state hw))\<rparr>))"
proof (intro conjI allI impI)
  show "PluginWrapper_ExecES w ctx qCtx hw =
           ((False, Some e), qCtx, hw\<lparr>hw_events := hw_events hw @ [DebugEvent ''exec plugin'' (p_Tag (w_p w))]\<rparr>)"
    using ExecES_cancelled [OF assms] by (simp add: logDebug_def)
  show "PluginWrapper_Match w ctx qCtx hw =
           ((False, Some e), qCtx, hw\<lparr>hw_events := hw_events hw @ [DebugEvent ''exec plugin'' (p_Tag (w_p w))]\<rparr>)"
    using Match_cancelled [OF assms] by (simp add: logDebug_def)
  show "PluginWrapper_Connect w ctx qCtx pipeCtx hw =
           (Some e, qCtx, hw\<lparr>hw_events := hw_events hw @ [DebugEvent ''exec plugin'' (p_Tag (w_p w))]\<rparr>)"
    using Connect_cancelled [OF assms] by (simp add: logDebug_def)
next
  fix s assume "w_s w = Some s"
  then show "PluginWrapper_Shutdown w hw =
              (fst (s (hw_state hw)),
               hw\<lparr>hw_events := hw_events hw @ [Invoked M_Shutdown], hw_state := snd (s (hw_state hw))\<rparr>)"
    by (rule Shutdown_dispatch)
qed

text \<open>Claim C5 as amended, at a plugin that implements every interface.\<close>

theorem cancelled_dispatch_witness:
  "PluginWrapper_ExecES (NewPluginWrapper (allRolesPlugin None)) cancelledCtx (exampleContext None) freshHandlerWorld
     = ((False, Some Canceled), exampleContext None, \<lparr>hw_events = [DebugEvent ''exec plugin'' ''all''], hw_state = 0\<rparr>)
   \<and> PluginWrapper_Match (NewPluginWrapper (allRolesPlugin None)) cancelledCtx (exampleContext None) freshHandlerWorld
     = ((False, Some Canceled), exampleContext None, \<lparr>hw_events = [DebugEvent ''exec plugin'' ''all''], hw_state = 0\<rparr>)
   \<and> PluginWrapper_Connect (NewPluginWrapper (allRolesPlugin None)) cancelledCtx (exampleContext None) idlePipe freshHandlerWorld
     = (Some Canceled, exampleContext None, \<lparr>hw_events = [DebugEvent ''exec plugin'' ''all''], hw_state = 0\<rparr>)
   \<and> PluginWrapper_Shutdown (NewPluginWrapper (allRolesPlugin None)) freshHandlerWorld
     = (None, \<lparr>hw_events = [Invoked M_Shutdown], hw_state = 1\<rparr>)"
proof -
  have h: "ctx_Err cancelledCtx = Some Canceled" by (simp add: cancelledCtx_def)
  have s: "w_s (NewPluginWrapper (allRolesPlugin None)) = Some (\<lambda>n. (None, Suc n))"
    by (simp add: NewPluginWrapper_def allRolesPlugin_def)
  note t = cancelled_dispatch [OF h, of "NewPluginWrapper (allRolesPlugin None)" "exampleContext None"
      freshHandlerWorld idlePipe]
  note t4 = t [THEN conjunct2, THEN conjunct2, THEN conjunct2, rule_format, OF s]
  from t t4 show ?thesis
    by (simp add: NewPluginWrapper_def allRolesPlugin_def freshHandlerWorld_def)
qed

text \<open>
  Claim C5 as stated fails for \<open>Shutdown\<close>: whatever context was cancelled, the wrapper
  invokes the plugin's \<open>Shutdown\<close> and returns its result, here nil.
\<close>

theorem shutdown_ignores_cancellation:
  "ctx_Err cancelledCtx = Some Canceled
   \<and> PluginWrapper_Shutdown (NewPluginWrapper (servicePlugin None)) freshHandlerWorld
       = (None, \<lparr>hw_events = [Invoked M_Shutdown], hw_state = 1\<rparr>)"
  by (simp add: wrapper_defs plugin_fixture_defs)

text \<open>
  Claim C6. \<open>ExecES\<close>, \<open>Match\<close> and \<open>Connect\<close> wrap an error of the underlying plugin with
  the plugin's tag (\<open>query_paths_wrap_errors\<close> below); \<open>Shutdown\<close> returns the error of the
  plugin's \<open>Shutdown\<close> as it is. At a Service whose \<open>Shutdown\<close> fails, the wrapper's result is
  the plugin's own error, not that error wrapped with the tag \<open>svc\<close>.
\<close>

theorem shutdown_error_not_wrapped:
  "PluginWrapper_Shutdown (NewPluginWrapper (servicePlugin (Some (OtherError ''close failed'')))) freshHandlerWorld
     = (Some (OtherError ''close failed''), \<lparr>hw_events = [Invoked M_Shutdown], hw_state = 1\<rparr>)
   \<and> fst (PluginWrapper_Shutdown (NewPluginWrapper (servicePlugin (Some (OtherError ''close failed'')))) freshHandlerWorld)
     \<noteq> Some (NewPluginError ''svc'' (OtherError ''close failed''))"
  by (simp add: wrapper_defs plugin_fixture_defs)

lemma query_paths_wrap_errors:
  "w_se w = Some se \<Longrightarrow> ctx_Err ctx = None \<Longrightarrow> se ctx qCtx (hw_state hw) = ((es, Some e), q', s')
     \<Longrightarrow> fst (PluginWrapper_ExecES w ctx qCtx hw) = (False, Some (NewPluginError (p_Tag (w_p w)) e))"
  "w_se w = None \<Longrightarrow> w_e w = Some ex \<Longrightarrow> ctx_Err ctx = None \<Longrightarrow> ex ctx qCtx (hw_state hw) = (Some e, q', s')
     \<Longrightarrow> fst (PluginWrapper_ExecES w ctx qCtx hw) = (False, Some (NewPluginError (p_Tag (w_p w)) e))"
  "w_m w = Some m \<Longrightarrow> ctx_Err ctx = None \<Longrightarrow> m ctx qCtx (hw_state hw) = ((b, Some e), q', s')
     \<Longrightarrow> fst (PluginWrapper_Match w ctx qCtx hw) = (False, Some (NewPluginError (p_Tag (w_p w)) e))"
  "w_cc w = Some cc \<Longrightarrow> ctx_Err ctx = None \<Longrightarrow> cc ctx qCtx pipeCtx (hw_state hw) = (Some e, q', s')
     \<Longrightarrow> fst (PluginWrapper_Connect w ctx qCtx pipeCtx hw) = Some (NewPluginError (p_Tag (w_p w)) e)"
  by (simp_all add: PluginWrapper_ExecES_def PluginWrapper_Match_def PluginWrapper_Connect_def
      Let_def logDebug_def)

text \<open>
  Claim C7. For every plugin that implements Executable and not ESExecutable (so for every
  plugin that implements only Executable), \<open>Is(PITESExecutable)\<close> of its wrapper is true,
  \<open>ExecES\<close> of its wrapper returns earlyStop = false on every call, and on a context that is
  not cancelled \<open>ExecES\<close> is the plugin's \<open>Exec\<close>: its effect on the context and the state,
  its error wrapped with the plugin's tag.
\<close>

theorem executable_adapted:
  assumes "p_ESExecutable gp = None" and "p_Executable gp = Some ex"
  shows "PluginWrapper_Is (NewPluginWrapper gp) PITESExecutable = Inr True
       \<and> (\<forall>ctx qCtx hw. fst (fst (PluginWrapper_ExecES (NewPluginWrapper gp) ctx qCtx hw)) = False)
       \<and> (\<forall>ctx qCtx hw. ctx_Err ctx = None \<longrightarrow>
            PluginWrapper_ExecES (NewPluginWrapper gp) ctx qCtx hw =
              (case ex ctx qCtx (hw_state hw) of
                 (err, qCtx', s') \<Rightarrow>
                   ((False, map_option (NewPluginError (p_Tag gp)) err), qCtx',
                    hw\<lparr>hw_events := hw_events hw @ [DebugEvent ''exec plugin'' (p_Tag gp), Invoked M_Exec],
                       hw_state := s'\<rparr>)))"
proof (intro conjI allI impI)
  show "PluginWrapper_Is (NewPluginWrapper gp) PITESExecutable = Inr True"
    using assms by (simp add: PluginWrapper_Is_def NewPluginWrapper_def)
next
  fix ctx :: goContext and qCtx :: "'a Context" and hw :: "'b handlerWorld"
  show "fst (fst (PluginWrapper_ExecES (NewPluginWrapper gp) ctx qCtx hw)) = False"
    using assms
    by (simp add: PluginWrapper_ExecES_def NewPluginWrapper_def Let_def
        split: option.splits prod.splits)
next
  fix ctx :: goContext and qCtx :: "'a Context" and hw :: "'b handlerWorld"
  assume "ctx_Err ctx = None"
  then show "PluginWrapper_ExecES (NewPluginWrapper gp) ctx qCtx hw =
              (case ex ctx qCtx (hw_state hw) of
                 (err, qCtx', s') \<Rightarrow>
                   ((False, map_option (NewPluginError (p_Tag gp)) err), qCtx',
                    hw\<lparr>hw_events := hw_events hw @ [DebugEvent ''exec plugin'' (p_Tag gp), Invoked M_Exec],
                       hw_state := s'\<rparr>))"
    using assms
    by (simp add: PluginWrapper_ExecES_def NewPluginWrapper_def Let_def logDebug_def invoked_def
        split: option.splits prod.splits)
qed

text \<open>Claim C7 at a plugin that implements Executable only.\<close>

theorem executable_adapted_witness:
  "PluginWrapper_Is (NewPluginWrapper (execOnlyPlugin None)) PITESExecutable = Inr True
   \<and> PluginWrapper_ExecES (NewPluginWrapper (execOnlyPlugin None)) liveCtx (exampleContext None) freshHandlerWorld
       = ((False, None), exampleContext None,
          \<lparr>hw_events = [DebugEvent ''exec plugin'' ''exec'', Invoked M_Exec], hw_state = 1\<rparr>)"
proof -
  have h1: "p_ESExecutable (execOnlyPlugin None) = None" by (simp add: execOnlyPlugin_def)
  have h2: "p_Executable (execOnlyPlugin None) = Some (\<lambda>ctx qCtx n. (None, qCtx, Suc n))"
    by (simp add: execOnlyPlugin_def)
  have h3: "ctx_Err liveCtx = None" by (simp add: liveCtx_def)
  note t = executable_adapted [OF h1 h2]
  note t3 = t [THEN conjunct2, THEN conjunct2, rule_format, OF h3, of "exampleContext None" freshHandlerWorld]
  from t t3 show ?thesis
    by (simp add: execOnlyPlugin_def freshHandlerWorld_def)
qed

section \<open>The hosts table: literal and regexp patterns, appended lines\<close>

lemma nullable_iff: "nullable r \<longleftrightarrow> [] \<in> lang r"
  by (induction r) (auto intro: star.star_nil)

lemma star_Cons_decomp:
  assumes "x \<in> star A" and "x = c # w"
  shows "\<exists>u v. w = u @ v \<and> c # u \<in> A \<and> v \<in> star A"
  using assms
proof (induction arbitrary: w rule: star.induct)
  case star_nil
  then show ?case by simp
next
  case (star_app u v)
  show ?case
  proof (cases u)
    case Nil
    with star_app show ?thesis by simp
  next
    case (Cons a u')
    with star_app.prems have "a = c" and "w = u' @ v" by simp_all
    with Cons star_app.hyps show ?thesis by blast
  qed
qed

lemma star_Cons_iff:
  "c # w \<in> star A \<longleftrightarrow> (\<exists>u v. w = u @ v \<and> c # u \<in> A \<and> v \<in> star A)"
proof
  assume "c # w \<in> star A"
  then show "\<exists>u v. w = u @ v \<and> c # u \<in> A \<and> v \<in> star A"
    by (rule star_Cons_decomp) simp
next
  assume "\<exists>u v. w = u @ v \<and> c # u \<in> A \<and> v \<in> star A"
  then obtain u v where "w = u @ v" "c # u \<in> A" "v \<in> star A" by blast
  then show "c # w \<in> star A"
    using star.star_app [of "c # u" A v] by simp
qed

lemma deriv_lang: "w \<in> lang (deriv c r) \<longleftrightarrow> c # w \<in> lang r"
proof (induction r arbitrary: w)
  case (RSeq a b)
  show ?case
  proof (cases "nullable a")
    case True
    then show ?thesis
      using RSeq
      apply (simp add: nullable_iff Cons_eq_append_conv)
      by blast
  next
    case False
    then show ?thesis
      using RSeq
      apply (simp add: nullable_iff Cons_eq_append_conv)
      by blast
  qed
next
  case (RStar a)
  then show ?case
    by (simp add: star_Cons_iff)
next
  case RAny
  show ?case by (auto simp: length_Suc_conv)
qed auto

lemma full_match_iff: "full_match r s \<longleftrightarrow> s \<in> lang r"
  by (induction s arbitrary: r) (simp_all add: nullable_iff deriv_lang)

lemma prefix_match_iff:
  "prefix_match r s \<longleftrightarrow> (\<exists>mid post. s = mid @ post \<and> mid \<in> lang r)"
proof (induction s arbitrary: r)
  case Nil
  then show ?case by (simp add: nullable_iff)
next
  case (Cons c cs)
  show ?case
    by (simp add: Cons.IH nullable_iff deriv_lang Cons_eq_append_conv) blast
qed

lemma search_match_iff:
  assumes "\<And>t. m r t \<longleftrightarrow> P t"
  shows "search_match m r s \<longleftrightarrow> (\<exists>pre t. s = pre @ t \<and> P t)"
proof (induction s)
  case Nil
  then show ?case by (simp add: assms)
next
  case (Cons c cs)
  show ?case
    by (simp add: Cons.IH assms Cons_eq_append_conv) blast
qed

lemma MatchString_iff:
  "MatchString re s \<longleftrightarrow>
     (\<exists>pre mid post. s = pre @ mid @ post \<and> mid \<in> lang (re_body re)
         \<and> (re_bol re \<longrightarrow> pre = []) \<and> (re_eol re \<longrightarrow> post = []))"
proof -
  have a: "search_match full_match (re_body re) s \<longleftrightarrow> (\<exists>pre t. s = pre @ t \<and> t \<in> lang (re_body re))"
    by (rule search_match_iff) (rule full_match_iff)
  have b: "search_match prefix_match (re_body re) s
      \<longleftrightarrow> (\<exists>pre t. s = pre @ t \<and> (\<exists>mid post. t = mid @ post \<and> mid \<in> lang (re_body re)))"
    by (rule search_match_iff) (rule prefix_match_iff)
  show ?thesis
  proof (cases "re_bol re"; cases "re_eol re")
    assume "re_bol re" "re_eol re"
    then show ?thesis by (simp add: MatchString_def full_match_iff)
  next
    assume "re_bol re" "\<not> re_eol re"
    then show ?thesis by (simp add: MatchString_def prefix_match_iff)
  next
    assume "\<not> re_bol re" "re_eol re"
    then show ?thesis by (simp add: MatchString_def a)
  next
    assume "\<not> re_bol re" "\<not> re_eol re"
    then show ?thesis by (simp add: MatchString_def b) blast
  qed
qed
lemma map_of_add_full:
  "map_of (add_full k v t) k' =
     (if k' = k then Some (case map_of t k of None \<Rightarrow> v | Some v' \<Rightarrow> v' @ v) else map_of t k')"
  by (induction t) auto

lemma full_lines_Cons:
  "full_lines ((Full p, ips) # ls) k = (if normalize_name p = k then [ips] else []) @ full_lines ls k"
  "full_lines ((Regexp re, ips) # ls) k = full_lines ls k"
  by (simp_all add: full_lines_def)

lemma regex_lines_Cons:
  "regex_lines ((Full p, ips) # ls) = regex_lines ls"
  "regex_lines ((Regexp re, ips) # ls) = (re, ips) # regex_lines ls"
  by (simp_all add: regex_lines_def)

lemma Add_simps:
  "Add m (Full p, ips) = m\<lparr>mm_full := add_full (normalize_name p) ips (mm_full m)\<rparr>"
  "Add m (Regexp re, ips) = m\<lparr>mm_regex := mm_regex m @ [(re, ips)]\<rparr>"
  by (simp_all add: Add_def)

lemma foldl_Add_full:
  "map_of (mm_full (foldl Add m ls)) k =
     (case map_of (mm_full m) k of
        None \<Rightarrow> if full_lines ls k = [] then None else Some (concat (full_lines ls k))
      | Some v0 \<Rightarrow> Some (v0 @ concat (full_lines ls k)))"
proof (induction ls arbitrary: m)
  case Nil
  then show ?case by (simp add: full_lines_def split: option.splits)
next
  case (Cons line ls)
  obtain pat ips where line: "line = (pat, ips)" by (cases line)
  show ?case
  proof (cases pat)
    case (Full p)
    then show ?thesis
      by (simp add: line Cons.IH Add_simps map_of_add_full full_lines_Cons split: option.splits)
  next
    case (Regexp re)
    then show ?thesis
      by (simp add: line Cons.IH Add_simps full_lines_Cons split: option.splits)
  qed
qed

lemma foldl_Add_regex:
  "mm_regex (foldl Add m ls) = mm_regex m @ regex_lines ls"
proof (induction ls arbitrary: m)
  case Nil
  then show ?case by (simp add: regex_lines_def)
next
  case (Cons line ls)
  obtain pat ips where line: "line = (pat, ips)" by (cases line)
  show ?case
    by (cases pat) (simp_all add: line Cons.IH Add_simps regex_lines_Cons)
qed

lemma Match_Load:
  "Match (Load ls) name =
     (if full_lines ls (normalize_name name) \<noteq> [] then Some (concat (full_lines ls (normalize_name name)))
      else case find (\<lambda>(re, ips). MatchString re name) (regex_lines ls) of
             Some (re, ips) \<Rightarrow> Some ips
           | None \<Rightarrow> None)"
  by (simp add: Match_def Load_def foldl_Add_full foldl_Add_regex NewMixMatcher_def)

lemma full_lines_nonempty:
  "full_lines ls k \<noteq> [] \<longleftrightarrow> (\<exists>p ips. (Full p, ips) \<in> set ls \<and> normalize_name p = k)"
proof (induction ls)
  case Nil
  then show ?case by (simp add: full_lines_def)
next
  case (Cons line ls)
  obtain pat ips where line: "line = (pat, ips)" by (cases line)
  show ?case
    by (cases pat) (auto simp add: line Cons.IH full_lines_Cons)
qed

lemma full_lines_member:
  "(Full p, ips) \<in> set ls \<Longrightarrow> normalize_name p = k \<Longrightarrow> ips \<in> set (full_lines ls k)"
proof (induction ls)
  case Nil
  then show ?case by simp
next
  case (Cons line ls)
  obtain pat ips' where line: "line = (pat, ips')" by (cases line)
  from Cons show ?case
    by (cases pat) (auto simp add: line full_lines_Cons)
qed

lemma regex_lines_set:
  "(re, ips) \<in> set (regex_lines ls) \<longleftrightarrow> (Regexp re, ips) \<in> set ls"
proof (induction ls)
  case Nil
  then show ?case by (simp add: regex_lines_def)
next
  case (Cons line ls)
  obtain pat ips' where line: "line = (pat, ips')" by (cases line)
  show ?case
    by (cases pat) (auto simp add: line Cons.IH regex_lines_Cons)
qed

lemma find_regex_None:
  "find (\<lambda>(re, ips). MatchString re name) (regex_lines ls) = None
     \<longleftrightarrow> \<not> (\<exists>re ips. (Regexp re, ips) \<in> set ls \<and> MatchString re name)"
  by (auto simp add: find_None_iff regex_lines_set)

lemma Match_Load_hit:
  "Match (Load ls) name \<noteq> None \<longleftrightarrow>
     (\<exists>p ips. (Full p, ips) \<in> set ls \<and> normalize_name p = normalize_name name)
     \<or> (\<exists>re ips. (Regexp re, ips) \<in> set ls \<and> MatchString re name)"
proof (cases "full_lines ls (normalize_name name) = []")
  case True
  then have no_full: "\<not> (\<exists>p ips. (Full p, ips) \<in> set ls \<and> normalize_name p = normalize_name name)"
    using full_lines_nonempty [of ls "normalize_name name"] by simp
  have "Match (Load ls) name \<noteq> None
      \<longleftrightarrow> find (\<lambda>(re, ips). MatchString re name) (regex_lines ls) \<noteq> None"
    using True by (simp add: Match_Load split: option.splits)
  also have "\<dots> \<longleftrightarrow> (\<exists>re ips. (Regexp re, ips) \<in> set ls \<and> MatchString re name)"
    using find_regex_None [of name ls] by simp
  finally show ?thesis using no_full by blast
next
  case False
  then have "\<exists>p ips. (Full p, ips) \<in> set ls \<and> normalize_name p = normalize_name name"
    using full_lines_nonempty [of ls "normalize_name name"] by simp
  with False show ?thesis
    by (simp add: Match_Load)
qed

lemma length_Fqdn:
  "length (Fqdn s) = (if s \<noteq> [] \<and> last s = CHR ''.'' then length s else Suc (length s))"
  by (simp add: Fqdn_def)

lemma subdomain_not_exact:
  assumes "sub \<noteq> []"
  shows "normalize_name (sub @ ''.'' @ p) \<noteq> normalize_name p"
proof -
  have "length (Fqdn (sub @ ''.'' @ p)) \<noteq> length (Fqdn p)"
    using assms by (cases "p = []") (auto simp add: length_Fqdn)
  then have "length (normalize_name (sub @ ''.'' @ p)) \<noteq> length (normalize_name p)"
    by (simp add: normalize_name_def)
  then show ?thesis by auto
qed

lemma union_of_lines:
  assumes "(Full p, ips) \<in> set ls" and "normalize_name p = normalize_name name"
  shows "\<exists>all. Match (Load ls) name = Some all \<and> set ips \<subseteq> set all"
proof -
  from full_lines_member [OF assms] have m: "ips \<in> set (full_lines ls (normalize_name name))" .
  then have ne: "full_lines ls (normalize_name name) \<noteq> []" by auto
  from m have "set ips \<subseteq> set (concat (full_lines ls (normalize_name name)))" by auto
  with ne show ?thesis by (simp add: Match_Load)
qed

lemma matchAndSet_answer:
  assumes "msg_Question (Q qCtx) = [qu]"
      and "q_Qtype qu = TypeA \<or> q_Qtype qu = TypeAAAA"
      and "Match m (q_Name qu) = Some all"
  shows "matchAndSet m qCtx =
           (True,
            qCtx\<lparr>qCtx_r := Some \<lparr>msg_Id = msg_Id (Q qCtx), msg_Rcode = RcodeSuccess,
                              msg_Truncated = False, msg_Question = [qu],
                              msg_Answer = answers (q_Name qu) (q_Qtype qu) all,
                              msg_Ns = [], msg_Extra = []\<rparr>,
                 qCtx_status := ContextStatusResponded\<rparr>)"
  using assms by (auto simp add: matchAndSet_def SetResponse_def)

lemma answers_data:
  "rr_Data ` set (answers name typ all) =
     (if typ = TypeA then RD_A ` {ip \<in> set all. is_v4 ip} else RD_AAAA ` {ip \<in> set all. \<not> is_v4 ip})"
  by (auto simp add: answers_def image_iff)

text \<open>The seven cases of \<open>Test_hostsContainer_Match\<close>, with the answers the test looks for.\<close>

lemma Test_hostsContainer_Match:
  "test_run ''dns.google.'' TypeA = (True, [IPv4 [8, 8, 8, 8], IPv4 [8, 8, 4, 4]])"
  "test_run ''dns.google.'' TypeAAAA =
     (True, [IPv6 [0x20, 0x01, 0x48, 0x60, 0x48, 0x60, 0, 0, 0, 0, 0, 0, 0, 0, 0x88, 0x44],
             IPv6 [0x20, 0x01, 0x48, 0x60, 0x48, 0x60, 0, 0, 0, 0, 0, 0, 0, 0, 0x88, 0x88]])"
  "test_run ''nxdomain.com.'' TypeA = (False, [])"
  "test_run ''sub.dns.google.'' TypeA = (False, [])"
  "test_run ''123456789.test.'' TypeA = (True, [IPv4 [192, 168, 1, 1]])"
  "test_run ''0123456789.test.'' TypeA = (False, [])"
  "test_run ''test.com.'' TypeA = (True, [IPv4 [1, 2, 3, 4], IPv4 [2, 3, 4, 5]])"
  by code_simp+

text \<open>
  Claim C9. For every table loaded from its lines and every query name:
  \<^item> the name is matched exactly when a literal line gives the same name (up to letter case
    and the trailing dot) or a regexp line matches it;
  \<^item> a literal pattern is not the same name as any of its subdomains;
  \<^item> a regexp pattern matches a name exactly when some part of the name is in the language
    of the expression, at the start of the name if the pattern begins with an anchor, up to
    the end of the name if it ends with one;
  \<^item> when several lines give the same literal pattern, a match on that name returns the
    addresses of every one of those lines, and the answer of a type A (AAAA) query carries
    exactly the IPv4 (IPv6) addresses among them;
  \<^item> an unmatched name leaves the context untouched and reports matched = false.
\<close>

theorem hosts_matching:
  "(Match (Load ls) name \<noteq> None) =
     ((\<exists>p ips. (Full p, ips) \<in> set ls \<and> normalize_name p = normalize_name name)
      \<or> (\<exists>re ips. (Regexp re, ips) \<in> set ls \<and> MatchString re name))
   \<and> (sub \<noteq> [] \<longrightarrow> normalize_name (sub @ ''.'' @ p) \<noteq> normalize_name p)
   \<and> MatchString re s =
       (\<exists>pre mid post. s = pre @ mid @ post \<and> mid \<in> lang (re_body re)
           \<and> (re_bol re \<longrightarrow> pre = []) \<and> (re_eol re \<longrightarrow> post = []))
   \<and> (\<forall>p ips. (Full p, ips) \<in> set ls \<and> normalize_name p = normalize_name name \<longrightarrow>
         (\<exists>all. Match (Load ls) name = Some all \<and> set ips \<subseteq> set all))
   \<and> (\<forall>qu all. msg_Question (Q qCtx) = [qu] \<and> (q_Qtype qu = TypeA \<or> q_Qtype qu = TypeAAAA)
           \<and> Match (Load ls) (q_Name qu) = Some all \<longrightarrow>
         fst (matchAndSet (Load ls) qCtx)
         \<and> (\<exists>r. R (snd (matchAndSet (Load ls) qCtx)) = Some r
               \<and> rr_Data ` set (msg_Answer r) =
                   (if q_Qtype qu = TypeA then RD_A ` {ip \<in> set all. is_v4 ip}
                    else RD_AAAA ` {ip \<in> set all. \<not> is_v4 ip})))
   \<and> (\<forall>qu. msg_Question (Q qCtx) = [qu] \<and> Match (Load ls) (q_Name qu) = None \<longrightarrow>
         matchAndSet (Load ls) qCtx = (False, qCtx))"
proof (intro conjI allI impI)
  show "(Match (Load ls) name \<noteq> None) =
     ((\<exists>p ips. (Full p, ips) \<in> set ls \<and> normalize_name p = normalize_name name)
      \<or> (\<exists>re ips. (Regexp re, ips) \<in> set ls \<and> MatchString re name))"
    by (rule Match_Load_hit)
next
  assume "sub \<noteq> []"
  then show "normalize_name (sub @ ''.'' @ p) \<noteq> normalize_name p"
    by (rule subdomain_not_exact)
next
  show "MatchString re s =
       (\<exists>pre mid post. s = pre @ mid @ post \<and> mid \<in> lang (re_body re)
           \<and> (re_bol re \<longrightarrow> pre = []) \<and> (re_eol re \<longrightarrow> post = []))"
    by (rule MatchString_iff)
next
  fix p ips
  assume "(Full p, ips) \<in> set ls \<and> normalize_name p = normalize_name name"
  then show "\<exists>all. Match (Load ls) name = Some all \<and> set ips \<subseteq> set all"
    using union_of_lines by blast
next
  fix qu all
  assume a: "msg_Question (Q qCtx) = [qu] \<and> (q_Qtype qu = TypeA \<or> q_Qtype qu = TypeAAAA)
           \<and> Match (Load ls) (q_Name qu) = Some all"
  then have m: "matchAndSet (Load ls) qCtx =
           (True,
            qCtx\<lparr>qCtx_r := Some \<lparr>msg_Id = msg_Id (Q qCtx), msg_Rcode = RcodeSuccess,
                              msg_Truncated = False, msg_Question = [qu],
                              msg_Answer = answers (q_Name qu) (q_Qtype qu) all,
                              msg_Ns = [], msg_Extra = []\<rparr>,
                 qCtx_status := ContextStatusResponded\<rparr>)"
    using matchAndSet_answer [of qCtx qu "Load ls" all] by blast
  show "fst (matchAndSet (Load ls) qCtx)" by (simp add: m)
  show "\<exists>r. R (snd (matchAndSet (Load ls) qCtx)) = Some r
               \<and> rr_Data ` set (msg_Answer r) =
                   (if q_Qtype qu = TypeA then RD_A ` {ip \<in> set all. is_v4 ip}
                    else RD_AAAA ` {ip \<in> set all. \<not> is_v4 ip})"
    by (simp add: m R_def answers_data)
next
  fix qu
  assume "msg_Question (Q qCtx) = [qu] \<and> Match (Load ls) (q_Name qu) = None"
  then show "matchAndSet (Load ls) qCtx = (False, qCtx)"
    by (simp add: matchAndSet_def)
qed

text \<open>Claim C9 at the table of \<open>Test_hostsContainer_Match\<close>.\<close>

theorem hosts_matching_witness:
  "normalize_name (''sub'' @ ''.'' @ ''dns.google'') \<noteq> normalize_name ''dns.google''
   \<and> Match (Load test_hosts) ''sub.dns.google.'' = None
   \<and> Match (Load test_hosts) ''test.com.'' = Some [IPv4 [1, 2, 3, 4], IPv4 [2, 3, 4, 5]]
   \<and> matchAndSet (Load test_hosts) (NewContext (SetQuestion ''nxdomain.com.'' TypeA))
       = (False, NewContext (SetQuestion ''nxdomain.com.'' TypeA))
   \<and> fst (matchAndSet (Load test_hosts) (NewContext (SetQuestion ''test.com.'' TypeA)))"
proof -
  let ?q1 = "NewContext (SetQuestion ''nxdomain.com.'' TypeA)"
  let ?q2 = "NewContext (SetQuestion ''test.com.'' TypeA)"
  let ?qu1 = "\<lparr>q_Name = ''nxdomain.com.'', q_Qtype = TypeA, q_Qclass = ClassINET\<rparr>"
  let ?qu2 = "\<lparr>q_Name = ''test.com.'', q_Qtype = TypeA, q_Qclass = ClassINET\<rparr>"
  note t1 = hosts_matching [where ls = test_hosts and name = "''test.com.''" and sub = "''sub''"
      and p = "''dns.google''" and qCtx = ?q1]
  note t2 = hosts_matching [where ls = test_hosts and name = "''test.com.''" and sub = "''sub''"
      and p = "''dns.google''" and qCtx = ?q2]
  have h_sub: "''sub'' \<noteq> []" by simp
  have a: "normalize_name (''sub'' @ ''.'' @ ''dns.google'') \<noteq> normalize_name ''dns.google''"
    using t1 h_sub by blast
  have b: "Match (Load test_hosts) ''sub.dns.google.'' = None" by code_simp
  have c: "Match (Load test_hosts) ''test.com.'' = Some [IPv4 [1, 2, 3, 4], IPv4 [2, 3, 4, 5]]"
    by code_simp
  have h_miss: "msg_Question (Q ?q1) = [?qu1] \<and> Match (Load test_hosts) (q_Name ?qu1) = None"
    by code_simp
  have d: "matchAndSet (Load test_hosts) ?q1 = (False, ?q1)"
    using t1 h_miss by blast
  have h_hit: "msg_Question (Q ?q2) = [?qu2] \<and> (q_Qtype ?qu2 = TypeA \<or> q_Qtype ?qu2 = TypeAAAA)
           \<and> Match (Load test_hosts) (q_Name ?qu2) = Some [IPv4 [1, 2, 3, 4], IPv4 [2, 3, 4, 5]]"
    by code_simp
  have e: "fst (matchAndSet (Load test_hosts) ?q2)"
    using t2 h_hit by blast
  show ?thesis using a b c d e by simp
qed

end
